theory Spec2Isabelle
  imports Main
begin

section \<open>Values read by the engagement loop\<close>

subsection \<open>Times of day\<close>

text \<open>
  A \<^verbatim>\<open>datetime.time\<close> without time zone. Python compares two such values as the tuples
  (hour, minute, second, microsecond), lexicographically.
\<close>

record time_of_day =
  hour :: nat
  minute :: nat
  second :: nat
  microsecond :: nat

definition time_le :: "time_of_day \<Rightarrow> time_of_day \<Rightarrow> bool" where
  "time_le a b =
     (hour a < hour b \<or> (hour a = hour b \<and>
       (minute a < minute b \<or> (minute a = minute b \<and>
         (second a < second b \<or> (second a = second b \<and>
           microsecond a \<le> microsecond b))))))"

text \<open>\<^verbatim>\<open>_parse_time_hhmm\<close> builds \<^verbatim>\<open>time(hour=h, minute=m)\<close>: seconds and microseconds are 0.\<close>

definition hhmm :: "nat \<Rightarrow> nat \<Rightarrow> time_of_day" where
  "hhmm h m = \<lparr>hour = h, minute = m, second = 0, microsecond = 0\<rparr>"

type_synonym block = "time_of_day \<times> time_of_day"

subsection \<open>Strings\<close>

text \<open>
  Strings are sequences of code points below 256. \<^verbatim>\<open>str.isspace\<close> holds there for the
  code points 9 to 13, 28 to 32, 133 and 160; \<^verbatim>\<open>str.lower\<close> moves A to Z and the
  Latin-1 capitals 192 to 222 (without the multiplication sign 215) up by 32.
\<close>

definition py_isspace :: "char \<Rightarrow> bool" where
  "py_isspace c =
     (let n = (of_char c :: nat)
      in (9 \<le> n \<and> n \<le> 13) \<or> (28 \<le> n \<and> n \<le> 32) \<or> n = 133 \<or> n = 160)"

definition strip :: "string \<Rightarrow> string" where
  "strip s = rev (dropWhile py_isspace (rev (dropWhile py_isspace s)))"

definition lower_char :: "char \<Rightarrow> char" where
  "lower_char c =
     (let n = (of_char c :: nat)
      in if (65 \<le> n \<and> n \<le> 90) \<or> (192 \<le> n \<and> n \<le> 222 \<and> n \<noteq> 215)
         then char_of (n + 32) else c)"

definition lower :: "string \<Rightarrow> string" where
  "lower s = map lower_char s"

definition startswith :: "string \<Rightarrow> string \<Rightarrow> bool" where
  "startswith s p = (take (length p) s = p)"

text \<open>\<^verbatim>\<open>bad in low\<close>: the substring test.\<close>

fun contains :: "string \<Rightarrow> string \<Rightarrow> bool" where
  "contains [] bad = (bad = [])"
| "contains (c # cs) bad = (startswith (c # cs) bad \<or> contains cs bad)"

text \<open>\<^verbatim>\<open>a or b\<close> on optional strings: \<^verbatim>\<open>None\<close> and the empty string are falsy.\<close>

definition or_str :: "string option \<Rightarrow> string option \<Rightarrow> string option" where
  "or_str a b = (case a of Some (c # cs) \<Rightarrow> a | _ \<Rightarrow> b)"

text \<open>\<^verbatim>\<open>a or b\<close> on optional integers: \<^verbatim>\<open>None\<close> and 0 are falsy.\<close>

definition or_int :: "int option \<Rightarrow> int option \<Rightarrow> int option" where
  "or_int a b = (case a of Some n \<Rightarrow> (if n \<noteq> 0 then a else b) | None \<Rightarrow> b)"

subsection \<open>Candidate records\<close>

text \<open>
  The fields \<^verbatim>\<open>gather_for_query\<close> reads with \<^verbatim>\<open>getattr\<close>; \<open>None\<close> stands for an attribute
  that is missing or \<^verbatim>\<open>None\<close>. The followers attributes are integers or \<^verbatim>\<open>None\<close>.
  The author identifiers are strings, empty when the attribute is missing.
\<close>

record user =
  followers_count :: "int option"
  followers :: "int option"
  user_id :: string
  user_id_str :: string

text \<open>
  \<^verbatim>\<open>created_at\<close> as \<^verbatim>\<open>ok_age\<close> sees it: falsy (\<open>NoTimestamp\<close>), a value that
  \<^verbatim>\<open>datetime.fromisoformat\<close> rejects (\<open>BadTimestamp\<close>), or an instant, in microseconds of
  UTC (a value without zone is read as UTC).
\<close>

datatype created = NoTimestamp | BadTimestamp | Timestamp int

record tweet =
  tweet_id :: "string option"
  full_text :: "string option"
  tweet_text :: "string option"
  lang :: "string option"
  created_at :: created
  tweet_user :: "user option"

subsection \<open>Settings\<close>

record settings =
  cookies_path :: string
  queries_path :: string
  seen_path :: string
  min_followers :: int
  max_followers :: int
  languages :: "string list"
  max_age_hours :: int
  exclude_keywords :: "string list"
  dry_run :: bool
  do_like :: bool
  do_follow :: bool
  like_per_day :: int
  follow_per_day :: int
  like_interval :: "int \<times> int"
  follow_interval :: "int \<times> int"
  micro_break_after :: int
  micro_break_seconds :: "int \<times> int"
  sessions_enabled :: bool
  session_blocks :: "block list"
  night_off :: "block option"

section \<open>Filters\<close>

subsection \<open>The session gate\<close>

text \<open>The body of the loop over \<^verbatim>\<open>blocks\<close> in \<^verbatim>\<open>within_blocks\<close>.\<close>

fun in_blocks :: "time_of_day \<Rightarrow> block list \<Rightarrow> bool" where
  "in_blocks t [] = False"
| "in_blocks t ((b_start, b_end) # bs) =
     (if time_le b_start b_end
      then (if time_le b_start t \<and> time_le t b_end then True else in_blocks t bs)
      else (if time_le b_start t \<or> time_le t b_end then True else in_blocks t bs))"

text \<open>\<^verbatim>\<open>within_blocks\<close>, on \<^verbatim>\<open>t = now.time()\<close>.\<close>

definition within_blocks :: "time_of_day \<Rightarrow> block list \<Rightarrow> block option \<Rightarrow> bool" where
  "within_blocks t blocks night =
     (if (case night of
            None \<Rightarrow> False
          | Some (n_start, n_end) \<Rightarrow>
              (if time_le n_start n_end then time_le n_start t \<and> time_le t n_end
               else time_le n_start t \<or> time_le t n_end))
      then False
      else if blocks = [] then True
      else in_blocks t blocks)"

text \<open>
  The specification's notion of an instant inside a window: inclusive bounds, and a window
  whose start is after its end wraps past midnight.
\<close>

definition inside_window :: "time_of_day \<Rightarrow> block \<Rightarrow> bool" where
  "inside_window t w =
     (if time_le (fst w) (snd w) then time_le (fst w) t \<and> time_le t (snd w)
      else time_le (fst w) t \<or> time_le t (snd w))"

subsection \<open>Text, language, age and author checks\<close>

definition is_rt_text :: "string \<Rightarrow> bool" where
  "is_rt_text txt = (let s = strip txt in startswith s ''RT @'' \<or> startswith s ''QT @'')"

definition is_reply_text :: "string \<Rightarrow> bool" where
  "is_reply_text txt = startswith (strip txt) ''@''"

definition ok_lang :: "string option \<Rightarrow> string list \<Rightarrow> bool" where
  "ok_lang l allowed =
     (case l of None \<Rightarrow> True | Some [] \<Rightarrow> True | Some s \<Rightarrow> lower s \<in> set allowed)"

definition ok_keywords :: "string \<Rightarrow> string list \<Rightarrow> bool" where
  "ok_keywords txt blacklist = (let low = lower txt in \<not> (\<exists>bad \<in> set blacklist. contains low bad))"

text \<open>
  \<^verbatim>\<open>ok_author\<close>: \<^verbatim>\<open>followers_count or followers\<close>, then \<^verbatim>\<open>int(...)\<close>, which raises on
  \<^verbatim>\<open>None\<close>; the handler returns \<^verbatim>\<open>True\<close>.
\<close>

definition ok_author :: "user \<Rightarrow> int \<Rightarrow> int \<Rightarrow> bool" where
  "ok_author u min_f max_f =
     (case or_int (followers_count u) (followers u) of
        None \<Rightarrow> True
      | Some f \<Rightarrow> min_f \<le> f \<and> f \<le> max_f)"

section \<open>The environment and the state of a run\<close>

text \<open>
  What the program does to the outside is kept as a trace of events: a sleep of
  \<^verbatim>\<open>random.randint(a, b)\<close> seconds, a sleep of a fixed number of seconds, a call of the
  client's like or follow entry point, a search, and a call of \<^verbatim>\<open>next()\<close> on the page
  handle with the given cursor.
\<close>

datatype event =
    EvSleep int int
  | EvSleepFixed int
  | EvLike string
  | EvFollow string
  | EvSearch string
  | EvNext nat

text \<open>An awaited client call returns, raises \<^verbatim>\<open>TooManyRequests\<close>, or raises another exception.\<close>

datatype api_result = Done | TooManyRequests | Failed string

text \<open>
  A page handle: the tweets it iterates over and the cursor that identifies it. A handle
  without tweets is falsy.
\<close>

record page =
  tweets :: "tweet list"
  cursor :: nat

datatype fetch_result = Fetched page | RateLimited | FetchFailed string

datatype exn = ValueError | OverflowError | CookieError

text \<open>
  The file of seen identifiers: content on which \<^verbatim>\<open>set(json.load(f))\<close> raises, or a JSON
  array of strings (the only shape the program writes).
\<close>

datatype seen_file = Unparsable | JsonStrings "string list"

datatype write_result = Written | OpenFailed | DumpFailed

text \<open>
  The environment answers by the number of the interaction (\<open>tick\<close>), so that the same
  call can be answered differently at different moments. \<open>like_tweet\<close> and \<open>follow_user\<close>
  are \<open>None\<close> when the client has neither of the two entry points that \<^verbatim>\<open>act_like\<close>
  and \<^verbatim>\<open>act_follow\<close> probe. \<open>queries\<close> is what \<^verbatim>\<open>load_queries\<close> returns, \<open>list_of_set\<close>
  the order in which \<^verbatim>\<open>list(seen_ids)\<close> enumerates a set.
\<close>

record world =
  like_tweet :: "(nat \<Rightarrow> string \<Rightarrow> api_result) option"
  follow_user :: "(nat \<Rightarrow> string \<Rightarrow> api_result) option"
  utc_now :: "nat \<Rightarrow> int"
  local_time :: "nat \<Rightarrow> time_of_day"
  search_tweet :: "nat \<Rightarrow> string \<Rightarrow> fetch_result"
  next_page :: "nat \<Rightarrow> nat \<Rightarrow> fetch_result"
  cookies_ok :: bool
  queries :: "string list"
  list_of_set :: "string set \<Rightarrow> string list"
  write_seen :: "nat \<Rightarrow> write_result"

text \<open>
  \<open>seen_ids\<close>, \<open>like_count\<close> and \<open>follow_count\<close> are the set and the two entries of
  \<^verbatim>\<open>counts\<close> that \<^verbatim>\<open>run_once\<close> shares with \<^verbatim>\<open>gather_for_query\<close>; \<open>raised\<close> holds an
  exception that is propagating.
\<close>

record state =
  seen_ids :: "string set"
  like_count :: int
  follow_count :: int
  tick :: nat
  trace :: "event list"
  raised :: "exn option"
  files :: "string \<Rightarrow> seen_file option"

definition emit :: "event list \<Rightarrow> state \<Rightarrow> state" where
  "emit evs s = s\<lparr>trace := trace s @ evs\<rparr>"

definition step_tick :: "state \<Rightarrow> state" where
  "step_tick s = s\<lparr>tick := Suc (tick s)\<rparr>"

text \<open>
  \<^verbatim>\<open>await asyncio.sleep(random.randint(*iv))\<close>: \<^verbatim>\<open>random.randint(a, b)\<close> raises
  \<^verbatim>\<open>ValueError\<close> when \<open>a > b\<close>.
\<close>

definition sleep_randint :: "int \<times> int \<Rightarrow> state \<Rightarrow> state" where
  "sleep_randint iv s =
     (if fst iv \<le> snd iv then emit [EvSleep (fst iv) (snd iv)] s
      else s\<lparr>raised := Some ValueError\<rparr>)"

text \<open>
  \<^verbatim>\<open>ok_age\<close>. \<^verbatim>\<open>timedelta(hours=h)\<close> raises \<^verbatim>\<open>OverflowError\<close> when its number of days,
  \<open>h div 24\<close>, is beyond 999999999 in absolute value.
\<close>

definition ok_age :: "world \<Rightarrow> created \<Rightarrow> int \<Rightarrow> state \<Rightarrow> bool \<times> state" where
  "ok_age w c max_h s =
     (case c of
        NoTimestamp \<Rightarrow> (True, s)
      | BadTimestamp \<Rightarrow> (True, s)
      | Timestamp dt \<Rightarrow>
          (let age = utc_now w (tick s) - dt; s1 = step_tick s
           in if 999999999 < \<bar>max_h div 24\<bar> then (False, s1\<lparr>raised := Some OverflowError\<rparr>)
              else (age \<le> max_h * 3600000000, s1)))"

section \<open>Actions\<close>

definition act_like :: "world \<Rightarrow> string \<Rightarrow> bool \<Rightarrow> state \<Rightarrow> string \<times> state" where
  "act_like w tid dry s =
     (if dry then (''like(dry)'', s)
      else case like_tweet w of
        None \<Rightarrow> (''like(n/a)'', s)
      | Some fn \<Rightarrow>
          (let s1 = emit [EvLike tid] (step_tick s)
           in case fn (tick s) tid of
                Done \<Rightarrow> (''like(ok)'', s1)
              | TooManyRequests \<Rightarrow> (''like(rate)'', emit [EvSleep 45 90] s1)
              | Failed e \<Rightarrow> (''like(err:'' @ e @ '')'', s1)))"

definition act_follow :: "world \<Rightarrow> string \<Rightarrow> bool \<Rightarrow> state \<Rightarrow> string \<times> state" where
  "act_follow w uid dry s =
     (if dry then (''follow(dry)'', s)
      else case follow_user w of
        None \<Rightarrow> (''follow(n/a)'', s)
      | Some fn \<Rightarrow>
          (let s1 = emit [EvFollow uid] (step_tick s)
           in case fn (tick s) uid of
                Done \<Rightarrow> (''follow(ok)'', s1)
              | TooManyRequests \<Rightarrow> (''follow(rate)'', emit [EvSleep 45 90] s1)
              | Failed e \<Rightarrow> (''follow(err:'' @ e @ '')'', s1)))"

section \<open>The core loop\<close>

text \<open>The checks of \<^verbatim>\<open>gather_for_query\<close> on the text, the language, the age and the author
  (lines 323 to 335): the author when the tweet clears them all.\<close>

definition filter_checks :: "world \<Rightarrow> settings \<Rightarrow> tweet \<Rightarrow> state \<Rightarrow> user option \<times> state" where
  "filter_checks w st t s =
     (let raw = (case or_str (full_text t) (tweet_text t) of Some x \<Rightarrow> x | None \<Rightarrow> []);
          txt = strip (map (\<lambda>c. if c = CHR 0x0A then CHR '' '' else c) raw)
      in if txt = [] \<or> is_rt_text txt \<or> is_reply_text txt then (None, s)
         else if \<not> ok_keywords txt (exclude_keywords st) then (None, s)
         else if \<not> ok_lang (lang t) (languages st) then (None, s)
         else case ok_age w (created_at t) (max_age_hours st) s of
           (fresh, s1) \<Rightarrow>
             if raised s1 \<noteq> None then (None, s1)
             else if \<not> fresh then (None, s1)
             else case tweet_user t of
               None \<Rightarrow> (None, s1)
             | Some u \<Rightarrow>
                 if \<not> ok_author u (min_followers st) (max_followers st) then (None, s1)
                 else (Some u, s1))"

text \<open>The LIKE block (lines 344 to 348).\<close>

definition like_step :: "world \<Rightarrow> settings \<Rightarrow> string \<Rightarrow> int \<Rightarrow> state \<Rightarrow> state" where
  "like_step w st tid like_left s =
     (if do_like st \<and> 0 < like_left
      then case act_like w tid (dry_run st) s of
        (res, s1) \<Rightarrow>
          sleep_randint (like_interval st)
            (if startswith res ''like(ok)'' then s1\<lparr>like_count := like_count s1 + 1\<rparr> else s1)
      else s)"

text \<open>The FOLLOW block (lines 351 to 357).\<close>

definition follow_step :: "world \<Rightarrow> settings \<Rightarrow> user \<Rightarrow> int \<Rightarrow> state \<Rightarrow> state" where
  "follow_step w st u follow_left s =
     (if do_follow st \<and> 0 < follow_left
      then (let uid = (if user_id u \<noteq> [] then user_id u else user_id_str u)
            in if uid \<noteq> []
               then case act_follow w uid (dry_run st) s of
                 (res, s1) \<Rightarrow>
                   sleep_randint (follow_interval st)
                     (if startswith res ''follow(ok)''
                      then s1\<lparr>follow_count := follow_count s1 + 1\<rparr> else s1)
               else s)
      else s)"

text \<open>The micro-break (lines 360 to 364).\<close>

definition micro_break :: "settings \<Rightarrow> state \<Rightarrow> state" where
  "micro_break st s =
     (let total = like_count s + follow_count s
      in if 0 < micro_break_after st \<and> 0 < total \<and> total mod micro_break_after st = 0
         then sleep_randint (micro_break_seconds st) s
         else s)"

text \<open>What follows \<^verbatim>\<open>seen_ids.add(tid)\<close> for an accepted tweet (lines 340 to 364).\<close>

definition dispatch :: "world \<Rightarrow> settings \<Rightarrow> string \<Rightarrow> user \<Rightarrow> state \<Rightarrow> state" where
  "dispatch w st tid u s =
     (let like_left = like_per_day st - like_count s;
          follow_left = follow_per_day st - follow_count s;
          s1 = like_step w st tid like_left s
      in if raised s1 \<noteq> None then s1
         else (let s2 = follow_step w st u follow_left s1
               in if raised s2 \<noteq> None then s2 else micro_break st s2))"

text \<open>The body of the loop over the tweets of a page (lines 319 to 364).\<close>

definition process_tweet :: "world \<Rightarrow> settings \<Rightarrow> tweet \<Rightarrow> state \<Rightarrow> state" where
  "process_tweet w st t s =
     (case tweet_id t of
        None \<Rightarrow> s
      | Some tid \<Rightarrow>
          if tid = [] \<or> tid \<in> seen_ids s then s
          else case filter_checks w st t s of
            (None, s1) \<Rightarrow> s1
          | (Some u, s1) \<Rightarrow> dispatch w st tid u (s1\<lparr>seen_ids := insert tid (seen_ids s1)\<rparr>))"

text \<open>\<^verbatim>\<open>for t in tweets\<close>: an exception leaves the loop.\<close>

fun process_page :: "world \<Rightarrow> settings \<Rightarrow> tweet list \<Rightarrow> state \<Rightarrow> state" where
  "process_page w st [] s = s"
| "process_page w st (t # ts) s =
     (let s1 = process_tweet w st t s
      in if raised s1 \<noteq> None then s1 else process_page w st ts s1)"

text \<open>
  One turn of \<^verbatim>\<open>while results\<close> (lines 314 to 376), for a handle that has tweets: the
  page is processed, then the next page is asked for. The turn ends with the handle of
  the next turn, or with \<open>None\<close> when the loop is left.
\<close>

definition gather_turn :: "world \<Rightarrow> settings \<Rightarrow> page \<Rightarrow> state \<Rightarrow> page option \<times> state" where
  "gather_turn w st results s =
     (let s1 = process_page w st (tweets results) s
      in if raised s1 \<noteq> None then (None, s1)
         else (let s2 = emit [EvSleep 2 5, EvNext (cursor results)] (step_tick s1)
               in case next_page w (tick s1) (cursor results) of
                    Fetched r \<Rightarrow> (Some r, s2)
                  | RateLimited \<Rightarrow> (Some results, emit [EvSleep 60 120] s2)
                  | FetchFailed e \<Rightarrow> (None, s2)))"

text \<open>
  \<^verbatim>\<open>while results\<close>, with fuel for the turns: the platform may report more pages for ever,
  and \<open>None\<close> says that the loop has not returned within the fuel.
\<close>

fun gather_loop :: "nat \<Rightarrow> world \<Rightarrow> settings \<Rightarrow> page \<Rightarrow> state \<Rightarrow> state option" where
  "gather_loop n w st results s =
     (if tweets results = [] then Some s
      else case n of
        0 \<Rightarrow> None
      | Suc m \<Rightarrow>
          (case gather_turn w st results s of
             (None, s1) \<Rightarrow> Some s1
           | (Some r, s1) \<Rightarrow> gather_loop m w st r s1))"

definition gather_for_query :: "nat \<Rightarrow> world \<Rightarrow> settings \<Rightarrow> string \<Rightarrow> state \<Rightarrow> state option" where
  "gather_for_query n w st query s =
     (let s1 = emit [EvSearch query] (step_tick s)
      in case search_tweet w (tick s) query of
           Fetched results \<Rightarrow> gather_loop n w st results s1
         | RateLimited \<Rightarrow> Some s1
         | FetchFailed e \<Rightarrow> Some s1)"

text \<open>\<^verbatim>\<open>for q in queries\<close> of \<^verbatim>\<open>run_once\<close> (lines 411 to 412).\<close>

fun run_queries :: "nat \<Rightarrow> world \<Rightarrow> settings \<Rightarrow> string list \<Rightarrow> state \<Rightarrow> state option" where
  "run_queries n w st [] s = Some s"
| "run_queries n w st (q # qs) s =
     (case gather_for_query n w st q s of
        None \<Rightarrow> None
      | Some s1 \<Rightarrow> if raised s1 \<noteq> None then Some s1 else run_queries n w st qs s1)"

section \<open>The seen set on disk and a pass\<close>

text \<open>Lines 401 to 407 of \<^verbatim>\<open>run_once\<close>.\<close>

definition load_seen :: "(string \<Rightarrow> seen_file option) \<Rightarrow> string \<Rightarrow> string set" where
  "load_seen fs path =
     (case fs path of
        None \<Rightarrow> {}
      | Some Unparsable \<Rightarrow> {}
      | Some (JsonStrings xs) \<Rightarrow> set xs)"

text \<open>
  Lines 415 to 419: a failure to open leaves the file as it was, a failure while dumping
  leaves a truncated file; both are caught and logged.
\<close>

definition save_seen :: "world \<Rightarrow> settings \<Rightarrow> state \<Rightarrow> state" where
  "save_seen w st s =
     (case write_seen w (tick s) of
        Written \<Rightarrow>
          (step_tick s)\<lparr>files := (files s)(seen_path st \<mapsto> JsonStrings (list_of_set w (seen_ids s)))\<rparr>
      | OpenFailed \<Rightarrow> step_tick s
      | DumpFailed \<Rightarrow> (step_tick s)\<lparr>files := (files s)(seen_path st \<mapsto> Unparsable)\<rparr>)"

text \<open>\<^verbatim>\<open>run_once\<close> after the session gate (lines 387 to 421).\<close>

definition run_pass :: "nat \<Rightarrow> world \<Rightarrow> settings \<Rightarrow> state \<Rightarrow> state option" where
  "run_pass n w st s =
     (if \<not> cookies_ok w then Some (s\<lparr>raised := Some CookieError\<rparr>)
      else if queries w = [] then Some s
      else (let s1 = s\<lparr>seen_ids := load_seen (files s) (seen_path st),
                        like_count := 0, follow_count := 0\<rparr>
            in case run_queries n w st (queries w) s1 of
                 None \<Rightarrow> None
               | Some s2 \<Rightarrow> if raised s2 \<noteq> None then Some s2 else Some (save_seen w st s2)))"

definition run_once :: "nat \<Rightarrow> world \<Rightarrow> settings \<Rightarrow> state \<Rightarrow> state option" where
  "run_once n w st s =
     (let now = local_time w (tick s); s0 = step_tick s
      in if sessions_enabled st \<and> \<not> within_blocks now (session_blocks st) (night_off st)
         then Some (emit [EvSleepFixed (15 * 60)] s0)
         else run_pass n w st s0)"

section \<open>Concrete candidates, settings and environments\<close>

text \<open>
  An author with 500 followers, a plain English tweet by that author, the settings of
  the specification's scenarios (follower bounds 100 to 1000, two likes a day, a
  micro-break after every third action), an environment in which every call succeeds,
  the first page of every search is empty and a set of identifiers is enumerated in the
  order 3, 1, 2, 9, and the state before a run.
\<close>

definition demo_user :: user where
  "demo_user = \<lparr>followers_count = Some 500, followers = None, user_id = ''u1'', user_id_str = []\<rparr>"

definition demo_tweet :: "string \<Rightarrow> tweet" where
  "demo_tweet i =
     \<lparr>tweet_id = Some i, full_text = Some ''hello world'', tweet_text = None,
      lang = Some ''en'', created_at = NoTimestamp, tweet_user = Some demo_user\<rparr>"

definition demo_settings :: settings where
  "demo_settings =
     \<lparr>cookies_path = ''cookies.json'', queries_path = ''queries.txt'', seen_path = ''seen.json'',
      min_followers = 100, max_followers = 1000, languages = [''en''], max_age_hours = 24,
      exclude_keywords = [''spam''], dry_run = False, do_like = True, do_follow = True,
      like_per_day = 2, follow_per_day = 333, like_interval = (20, 40),
      follow_interval = (60, 150), micro_break_after = 3, micro_break_seconds = (120, 300),
      sessions_enabled = False,
      session_blocks = [(hhmm 9 0, hhmm 12 0), (hhmm 19 0, hhmm 23 0), (hhmm 23 30, hhmm 6 0)],
      night_off = Some (hhmm 1 0, hhmm 5 0)\<rparr>"

definition empty_page :: page where
  "empty_page = \<lparr>tweets = [], cursor = 0\<rparr>"

definition demo_world :: world where
  "demo_world =
     \<lparr>like_tweet = Some (\<lambda>n tid. Done), follow_user = Some (\<lambda>n uid. Done),
      utc_now = (\<lambda>n. 0), local_time = (\<lambda>n. hhmm 2 0),
      search_tweet = (\<lambda>n q. Fetched empty_page), next_page = (\<lambda>n c. Fetched empty_page),
      cookies_ok = True, queries = [''isabelle''],
      list_of_set = (\<lambda>S. filter (\<lambda>x. x \<in> S) [''3'', ''1'', ''2'', ''9'']),
      write_seen = (\<lambda>n. Written)\<rparr>"

definition start :: state where
  "start =
     \<lparr>seen_ids = {}, like_count = 0, follow_count = 0, tick = 0, trace = [],
      raised = None, files = (\<lambda>p. None)\<rparr>"


definition failing_world :: world where
  "failing_world = demo_world\<lparr>like_tweet := Some (\<lambda>n tid. Failed ''boom'')\<rparr>"

definition two_likes :: state where
  "two_likes = start\<lparr>like_count := 2\<rparr>"

definition zero_user :: user where
  "zero_user = \<lparr>followers_count = Some 0, followers = None, user_id = ''u0'', user_id_str = []\<rparr>"

text \<open>The state after the first demo tweet has been processed while every like fails.\<close>

definition seen_one :: state where
  "seen_one = process_tweet failing_world demo_settings (demo_tweet ''1'') start"

text \<open>
  An environment whose search returns one page with three demo tweets, and the state in
  which the follow cap of the demo settings is reached.
\<close>

definition three_page :: page where
  "three_page = \<lparr>tweets = [demo_tweet ''1'', demo_tweet ''2'', demo_tweet ''3''], cursor = 1\<rparr>"

definition three_world :: world where
  "three_world = demo_world\<lparr>search_tweet := (\<lambda>n q. Fetched three_page)\<rparr>"

definition follows_done :: state where
  "follows_done = start\<lparr>follow_count := 333\<rparr>"

text \<open>The state in which the only query of that environment ends when it starts from \<open>start\<close>.\<close>

definition three_done :: state where
  "three_done =
     emit [EvSleep 2 5, EvNext 1]
       (step_tick (process_page three_world demo_settings (tweets three_page)
                     (emit [EvSearch ''isabelle''] (step_tick start))))"

text \<open>
  Two variants of that environment: in the first the call of \<^verbatim>\<open>next()\<close> made as
  interaction number 6 (the first one after the three demo tweets) is rate-limited and
  every other one returns an empty page, in the second every call of \<^verbatim>\<open>next()\<close> fails.
\<close>

definition rate_world :: world where
  "rate_world = three_world\<lparr>next_page := (\<lambda>n c. if n = 6 then RateLimited else Fetched empty_page)\<rparr>"

definition broken_world :: world where
  "broken_world = three_world\<lparr>next_page := (\<lambda>n c. FetchFailed ''boom'')\<rparr>"

text \<open>
  A tweet that is a hundred hours old when the clock reads 0, a page with a fresh and an
  old tweet, and an environment in which the call of \<^verbatim>\<open>next()\<close> made as interaction
  number 3 is rate-limited.
\<close>

definition old_tweet :: tweet where
  "old_tweet = (demo_tweet ''2'')\<lparr>created_at := Timestamp (- 360000000000)\<rparr>"

definition mixed_page :: page where
  "mixed_page = \<lparr>tweets = [demo_tweet ''1'', old_tweet], cursor = 7\<rparr>"

definition mixed_world :: world where
  "mixed_world = demo_world\<lparr>next_page := (\<lambda>n c. if n = 3 then RateLimited else Fetched empty_page)\<rparr>"

text \<open>
  The state after the first turn on the mixed page in that environment: the page has
  been processed, \<^verbatim>\<open>next()\<close> has been rate-limited and the backoff has been slept.
\<close>

definition mixed_backoff :: state where
  "mixed_backoff =
     emit [EvSleep 2 5, EvNext (cursor mixed_page), EvSleep 60 120]
       (step_tick (process_page mixed_world demo_settings (tweets mixed_page) start))"


definition limited_world :: world where
  "limited_world =
     three_world\<lparr>search_tweet := (\<lambda>n q. if n = 0 then RateLimited else Fetched three_page)\<rparr>"

text \<open>The demo settings with the session gate switched on.\<close>

definition gated_settings :: settings where
  "gated_settings = demo_settings\<lparr>sessions_enabled := True\<rparr>"

section \<open>Notions of the specification\<close>

text \<open>
  A confirmed like: not a dry run, the client has an entry point, and the call made at
  this moment returns. A confirmed follow: the same, for an author with an identifier.
\<close>

definition like_confirmed :: "world \<Rightarrow> settings \<Rightarrow> string \<Rightarrow> state \<Rightarrow> bool" where
  "like_confirmed w st tid s =
     (\<not> dry_run st \<and> (case like_tweet w of None \<Rightarrow> False | Some fn \<Rightarrow> fn (tick s) tid = Done))"

definition follow_confirmed :: "world \<Rightarrow> settings \<Rightarrow> user \<Rightarrow> state \<Rightarrow> bool" where
  "follow_confirmed w st u s =
     (\<not> dry_run st \<and> (user_id u \<noteq> [] \<or> user_id_str u \<noteq> []) \<and>
      (case follow_user w of
         None \<Rightarrow> False
       | Some fn \<Rightarrow> fn (tick s) (if user_id u \<noteq> [] then user_id u else user_id_str u) = Done))"

text \<open>The quota invariant: no count is beyond its daily cap.\<close>

definition within_caps :: "settings \<Rightarrow> state \<Rightarrow> bool" where
  "within_caps st s = (like_count s \<le> like_per_day st \<and> follow_count s \<le> follow_per_day st)"

declare gather_loop.simps [simp del]

section \<open>Properties of the session gate\<close>

lemma in_blocks_Cons: "in_blocks t (b # bs) = (inside_window t b \<or> in_blocks t bs)"
  by (cases b) (simp add: inside_window_def)

lemma in_blocks_iff: "in_blocks t bs \<longleftrightarrow> (\<exists>b \<in> set bs. inside_window t b)"
  by (induction bs) (simp_all add: in_blocks_Cons)

text \<open>
  C5. At every instant inside the configured night-off window (inclusive bounds, with the
  wrap past midnight when the start is after the end) the session gate answers false,
  whatever the session windows are, so also when one of them contains the instant.
\<close>

theorem night_off_precedence:
  assumes "inside_window t w"
  shows "within_blocks t blocks (Some w) = False"
proof (cases w)
  case (Pair n_start n_end)
  with assms show ?thesis
    by (auto simp: within_blocks_def inside_window_def split: if_splits)
qed

theorem night_off_precedence_witness:
  "inside_window (hhmm 2 0) (hhmm 23 0, hhmm 7 0)
   \<and> in_blocks (hhmm 2 0) [(hhmm 23 30, hhmm 6 0)]
   \<and> within_blocks (hhmm 2 0) [(hhmm 23 30, hhmm 6 0)] (Some (hhmm 23 0, hhmm 7 0)) = False"
proof -
  have h: "inside_window (hhmm 2 0) (hhmm 23 0, hhmm 7 0)"
    by (simp add: inside_window_def time_le_def hhmm_def)
  have b: "in_blocks (hhmm 2 0) [(hhmm 23 30, hhmm 6 0)]"
    by (simp add: time_le_def hhmm_def)
  from h b night_off_precedence [OF h, of "[(hhmm 23 30, hhmm 6 0)]"] show ?thesis by simp
qed

text \<open>
  C6. With the window 23:30 to 06:00 in the list of session windows and no night-off
  window, the gate is open at 23:45 and at 02:00 (at any second of those minutes), and it
  is closed at 12:00 when no other window of the list contains 12:00.
\<close>

theorem wraparound_window:
  assumes "(hhmm 23 30, hhmm 6 0) \<in> set blocks"
  shows "within_blocks \<lparr>hour = 23, minute = 45, second = s, microsecond = u\<rparr> blocks None
       \<and> within_blocks \<lparr>hour = 2, minute = 0, second = s, microsecond = u\<rparr> blocks None
       \<and> ((\<forall>b \<in> set blocks. b \<noteq> (hhmm 23 30, hhmm 6 0) \<longrightarrow>
              \<not> inside_window \<lparr>hour = 12, minute = 0, second = s, microsecond = u\<rparr> b)
            \<longrightarrow> \<not> within_blocks \<lparr>hour = 12, minute = 0, second = s, microsecond = u\<rparr> blocks None)"
proof -
  let ?w = "(hhmm 23 30, hhmm 6 0)"
  from assms have ne: "blocks \<noteq> []" by auto
  have a: "inside_window \<lparr>hour = 23, minute = 45, second = s, microsecond = u\<rparr> ?w"
    by (simp add: inside_window_def time_le_def hhmm_def)
  have b: "inside_window \<lparr>hour = 2, minute = 0, second = s, microsecond = u\<rparr> ?w"
    by (simp add: inside_window_def time_le_def hhmm_def)
  have c: "\<not> inside_window \<lparr>hour = 12, minute = 0, second = s, microsecond = u\<rparr> ?w"
    by (simp add: inside_window_def time_le_def hhmm_def)
  from a assms ne have 1: "within_blocks \<lparr>hour = 23, minute = 45, second = s, microsecond = u\<rparr> blocks None"
    unfolding within_blocks_def in_blocks_iff by auto
  from b assms ne have 2: "within_blocks \<lparr>hour = 2, minute = 0, second = s, microsecond = u\<rparr> blocks None"
    unfolding within_blocks_def in_blocks_iff by auto
  from c ne have 3: "(\<forall>b \<in> set blocks. b \<noteq> ?w \<longrightarrow>
              \<not> inside_window \<lparr>hour = 12, minute = 0, second = s, microsecond = u\<rparr> b)
            \<longrightarrow> \<not> within_blocks \<lparr>hour = 12, minute = 0, second = s, microsecond = u\<rparr> blocks None"
    unfolding within_blocks_def in_blocks_iff by auto
  from 1 2 3 show ?thesis by blast
qed

theorem wraparound_window_witness:
  "(hhmm 23 30, hhmm 6 0) \<in> set [(hhmm 9 0, hhmm 11 0), (hhmm 23 30, hhmm 6 0)]
   \<and> \<not> inside_window \<lparr>hour = 12, minute = 0, second = 0, microsecond = 0\<rparr> (hhmm 9 0, hhmm 11 0)
   \<and> within_blocks \<lparr>hour = 23, minute = 45, second = 0, microsecond = 0\<rparr>
        [(hhmm 9 0, hhmm 11 0), (hhmm 23 30, hhmm 6 0)] None
   \<and> within_blocks \<lparr>hour = 2, minute = 0, second = 0, microsecond = 0\<rparr>
        [(hhmm 9 0, hhmm 11 0), (hhmm 23 30, hhmm 6 0)] None
   \<and> \<not> within_blocks \<lparr>hour = 12, minute = 0, second = 0, microsecond = 0\<rparr>
        [(hhmm 9 0, hhmm 11 0), (hhmm 23 30, hhmm 6 0)] None"
proof -
  have h: "(hhmm 23 30, hhmm 6 0) \<in> set [(hhmm 9 0, hhmm 11 0), (hhmm 23 30, hhmm 6 0)]"
    by simp
  have o: "\<forall>b \<in> set [(hhmm 9 0, hhmm 11 0), (hhmm 23 30, hhmm 6 0)]. b \<noteq> (hhmm 23 30, hhmm 6 0) \<longrightarrow>
              \<not> inside_window \<lparr>hour = 12, minute = 0, second = 0, microsecond = 0\<rparr> b"
    by (simp add: inside_window_def time_le_def hhmm_def)
  have n: "\<not> inside_window \<lparr>hour = 12, minute = 0, second = 0, microsecond = 0\<rparr> (hhmm 9 0, hhmm 11 0)"
    by (simp add: inside_window_def time_le_def hhmm_def)
  from h o n wraparound_window [OF h, of 0 0] show ?thesis by blast
qed

section \<open>How the steps change the state\<close>

lemma emit_fields [simp]:
  "seen_ids (emit e s) = seen_ids s" "like_count (emit e s) = like_count s"
  "follow_count (emit e s) = follow_count s" "tick (emit e s) = tick s"
  "raised (emit e s) = raised s" "files (emit e s) = files s"
  "trace (emit e s) = trace s @ e"
  by (simp_all add: emit_def)

lemma step_tick_fields [simp]:
  "seen_ids (step_tick s) = seen_ids s" "like_count (step_tick s) = like_count s"
  "follow_count (step_tick s) = follow_count s" "tick (step_tick s) = Suc (tick s)"
  "raised (step_tick s) = raised s" "files (step_tick s) = files s"
  "trace (step_tick s) = trace s"
  by (simp_all add: step_tick_def)

lemma sleep_randint_fields [simp]:
  "seen_ids (sleep_randint iv s) = seen_ids s" "like_count (sleep_randint iv s) = like_count s"
  "follow_count (sleep_randint iv s) = follow_count s" "tick (sleep_randint iv s) = tick s"
  "files (sleep_randint iv s) = files s"
  by (simp_all add: sleep_randint_def)


lemma ok_age_fields:
  assumes "ok_age w c h s = (r, s1)"
  shows "seen_ids s1 = seen_ids s" "like_count s1 = like_count s"
    "follow_count s1 = follow_count s" "trace s1 = trace s" "files s1 = files s"
  using assms by (auto simp: ok_age_def Let_def split: created.splits if_splits)

lemma filter_checks_fields:
  assumes "filter_checks w st t s = (r, s1)"
  shows "seen_ids s1 = seen_ids s" "like_count s1 = like_count s"
    "follow_count s1 = follow_count s" "trace s1 = trace s" "files s1 = files s"
  using assms
  by (auto simp: filter_checks_def Let_def split: if_splits prod.splits option.splits
      dest: ok_age_fields)

lemma act_like_fields:
  assumes "act_like w tid dry s = (res, s1)"
  shows "seen_ids s1 = seen_ids s" "like_count s1 = like_count s"
    "follow_count s1 = follow_count s" "raised s1 = raised s" "files s1 = files s"
  using assms
  by (auto simp: act_like_def Let_def split: if_splits option.splits api_result.splits)

lemma act_follow_fields:
  assumes "act_follow w uid dry s = (res, s1)"
  shows "seen_ids s1 = seen_ids s" "like_count s1 = like_count s"
    "follow_count s1 = follow_count s" "raised s1 = raised s" "files s1 = files s"
  using assms
  by (auto simp: act_follow_def Let_def split: if_splits option.splits api_result.splits)

lemma act_like_ok:
  assumes "act_like w tid dry s = (res, s1)"
  shows "startswith res ''like(ok)'' \<longleftrightarrow>
           (\<not> dry \<and> (\<exists>fn. like_tweet w = Some fn \<and> fn (tick s) tid = Done))"
  using assms
  by (auto simp: act_like_def Let_def startswith_def split: if_splits option.splits api_result.splits)

lemma act_follow_ok:
  assumes "act_follow w uid dry s = (res, s1)"
  shows "startswith res ''follow(ok)'' \<longleftrightarrow>
           (\<not> dry \<and> (\<exists>fn. follow_user w = Some fn \<and> fn (tick s) uid = Done))"
  using assms
  by (auto simp: act_follow_def Let_def startswith_def split: if_splits option.splits api_result.splits)

lemma like_step_count:
  "like_count (like_step w st tid left s) =
     like_count s + (if do_like st \<and> 0 < left \<and> like_confirmed w st tid s then 1 else 0)"
proof (cases "act_like w tid (dry_run st) s")
  case (Pair res s1)
  from act_like_ok [OF Pair] act_like_fields(2) [OF Pair] Pair show ?thesis
    by (auto simp: like_step_def like_confirmed_def split: option.splits)
qed

lemma like_step_fields [simp]:
  "seen_ids (like_step w st tid left s) = seen_ids s"
  "follow_count (like_step w st tid left s) = follow_count s"
  "files (like_step w st tid left s) = files s"
proof -
  obtain res s1 where p: "act_like w tid (dry_run st) s = (res, s1)" by (cases "act_like w tid (dry_run st) s")
  from act_like_fields [OF p] p show "seen_ids (like_step w st tid left s) = seen_ids s"
    "follow_count (like_step w st tid left s) = follow_count s"
    "files (like_step w st tid left s) = files s"
    by (simp_all add: like_step_def)
qed

lemma follow_step_count:
  "follow_count (follow_step w st u left s) =
     follow_count s + (if do_follow st \<and> 0 < left \<and> follow_confirmed w st u s then 1 else 0)"
proof -
  let ?uid = "if user_id u \<noteq> [] then user_id u else user_id_str u"
  obtain res s1 where p: "act_follow w ?uid (dry_run st) s = (res, s1)"
    by (cases "act_follow w ?uid (dry_run st) s")
  from act_follow_ok [OF p] act_follow_fields(3) [OF p] p show ?thesis
    by (auto simp: follow_step_def follow_confirmed_def Let_def split: option.splits if_splits)
qed

lemma follow_step_fields [simp]:
  "seen_ids (follow_step w st u left s) = seen_ids s"
  "like_count (follow_step w st u left s) = like_count s"
  "files (follow_step w st u left s) = files s"
proof -
  let ?uid = "if user_id u \<noteq> [] then user_id u else user_id_str u"
  obtain res s1 where p: "act_follow w ?uid (dry_run st) s = (res, s1)"
    by (cases "act_follow w ?uid (dry_run st) s")
  from act_follow_fields [OF p] p show "seen_ids (follow_step w st u left s) = seen_ids s"
    "like_count (follow_step w st u left s) = like_count s"
    "files (follow_step w st u left s) = files s"
    by (simp_all add: follow_step_def Let_def)
qed

lemma micro_break_fields [simp]:
  "seen_ids (micro_break st s) = seen_ids s" "like_count (micro_break st s) = like_count s"
  "follow_count (micro_break st s) = follow_count s" "tick (micro_break st s) = tick s"
  "files (micro_break st s) = files s"
  by (simp_all add: micro_break_def Let_def)

lemma dispatch_seen [simp]: "seen_ids (dispatch w st tid u s) = seen_ids s"
  by (simp add: dispatch_def Let_def)

lemma dispatch_files [simp]: "files (dispatch w st tid u s) = files s"
  by (simp add: dispatch_def Let_def)

lemma dispatch_like_count:
  "like_count (dispatch w st tid u s) =
     like_count s + (if do_like st \<and> 0 < like_per_day st - like_count s \<and> like_confirmed w st tid s
                     then 1 else 0)"
  by (simp add: dispatch_def Let_def like_step_count)

lemma dispatch_follow_count:
  "follow_count (dispatch w st tid u s) =
     follow_count s +
       (if raised (like_step w st tid (like_per_day st - like_count s) s) = None \<and> do_follow st
           \<and> 0 < follow_per_day st - follow_count s
           \<and> follow_confirmed w st u (like_step w st tid (like_per_day st - like_count s) s)
        then 1 else 0)"
  by (simp add: dispatch_def Let_def follow_step_count)

lemma dispatch_within_caps:
  "within_caps st s \<Longrightarrow> within_caps st (dispatch w st tid u s)"
  by (simp add: within_caps_def dispatch_like_count dispatch_follow_count)

lemma process_tweet_seen_mono: "seen_ids s \<subseteq> seen_ids (process_tweet w st t s)"
  by (auto simp: process_tweet_def split: option.splits prod.splits dest: filter_checks_fields(1))

lemma filter_checks_within_caps:
  assumes "within_caps st s" and "filter_checks w st t s = (r, s1)"
  shows "within_caps st s1" and "within_caps st (s1\<lparr>seen_ids := X\<rparr>)"
  using assms filter_checks_fields(2,3) [OF assms(2)] by (simp_all add: within_caps_def)

lemma process_tweet_within_caps:
  assumes "within_caps st s"
  shows "within_caps st (process_tweet w st t s)"
proof (cases "filter_checks w st t s")
  case (Pair r s1)
  note fc = filter_checks_within_caps [OF assms Pair]
  show ?thesis
  proof (cases r)
    case None
    with Pair assms fc(1) show ?thesis
      by (simp add: process_tweet_def split: option.splits)
  next
    case (Some u)
    with Pair assms dispatch_within_caps [OF fc(2)] show ?thesis
      by (simp add: process_tweet_def split: option.splits)
  qed
qed

lemma process_page_within_caps:
  "within_caps st s \<Longrightarrow> within_caps st (process_page w st ts s)"
  by (induction ts arbitrary: s) (simp_all add: Let_def process_tweet_within_caps)

lemma process_page_seen_mono: "seen_ids s \<subseteq> seen_ids (process_page w st ts s)"
proof (induction ts arbitrary: s)
  case Nil
  show ?case by simp
next
  case (Cons t ts)
  from process_tweet_seen_mono [of s w st t] Cons [of "process_tweet w st t s"]
  show ?case by (auto simp: Let_def)
qed

lemma gather_turn_within_caps:
  assumes "within_caps st s" and "gather_turn w st results s = (r, s1)"
  shows "within_caps st s1"
  using assms(2) process_page_within_caps [OF assms(1), of w "tweets results"]
  by (auto simp: gather_turn_def Let_def within_caps_def split: if_splits fetch_result.splits)

lemma gather_turn_seen_mono:
  assumes "gather_turn w st results s = (r, s1)"
  shows "seen_ids s \<subseteq> seen_ids s1"
  using assms process_page_seen_mono [of s w st "tweets results"]
  by (auto simp: gather_turn_def Let_def split: if_splits fetch_result.splits)

lemma gather_loop_empty: "tweets results = [] \<Longrightarrow> gather_loop n w st results s = Some s"
  by (simp add: gather_loop.simps)

lemma gather_loop_0: "tweets results \<noteq> [] \<Longrightarrow> gather_loop 0 w st results s = None"
  by (simp add: gather_loop.simps)

lemma gather_loop_Suc:
  "tweets results \<noteq> [] \<Longrightarrow>
   gather_loop (Suc m) w st results s =
     (case gather_turn w st results s of
        (None, s1) \<Rightarrow> Some s1
      | (Some r, s1) \<Rightarrow> gather_loop m w st r s1)"
  by (subst gather_loop.simps) simp

lemma gather_loop_within_caps:
  "within_caps st s \<Longrightarrow> gather_loop n w st results s = Some s' \<Longrightarrow> within_caps st s'"
proof (induction n arbitrary: results s)
  case 0
  then show ?case by (cases "tweets results = []") (simp_all add: gather_loop_empty gather_loop_0)
next
  case (Suc n)
  show ?case
  proof (cases "tweets results = []")
    case True
    with Suc.prems show ?thesis by (simp add: gather_loop_empty)
  next
    case False
    obtain r s1 where t: "gather_turn w st results s = (r, s1)" by (cases "gather_turn w st results s")
    note c = gather_turn_within_caps [OF Suc.prems(1) t]
    show ?thesis
    proof (cases r)
      case None
      with False t Suc.prems(2) c show ?thesis by (simp add: gather_loop_Suc)
    next
      case (Some r')
      with False t Suc.prems(2) have "gather_loop n w st r' s1 = Some s'" by (simp add: gather_loop_Suc)
      from Suc.IH [OF c this] show ?thesis .
    qed
  qed
qed

lemma gather_loop_seen_mono:
  "gather_loop n w st results s = Some s' \<Longrightarrow> seen_ids s \<subseteq> seen_ids s'"
proof (induction n arbitrary: results s)
  case 0
  then show ?case by (cases "tweets results = []") (simp_all add: gather_loop_empty gather_loop_0)
next
  case (Suc n)
  show ?case
  proof (cases "tweets results = []")
    case True
    with Suc.prems show ?thesis by (simp add: gather_loop_empty)
  next
    case False
    obtain r s1 where t: "gather_turn w st results s = (r, s1)" by (cases "gather_turn w st results s")
    note c = gather_turn_seen_mono [OF t]
    show ?thesis
    proof (cases r)
      case None
      with False t Suc.prems c show ?thesis by (simp add: gather_loop_Suc)
    next
      case (Some r')
      with False t Suc.prems have "gather_loop n w st r' s1 = Some s'" by (simp add: gather_loop_Suc)
      from Suc.IH [OF this] c show ?thesis by blast
    qed
  qed
qed

lemma gather_for_query_within_caps:
  "within_caps st s \<Longrightarrow> gather_for_query n w st q s = Some s' \<Longrightarrow> within_caps st s'"
proof -
  assume a: "within_caps st s" and b: "gather_for_query n w st q s = Some s'"
  have c: "within_caps st (emit [EvSearch q] (step_tick s))" using a by (simp add: within_caps_def)
  from b c show ?thesis
    by (auto simp: gather_for_query_def Let_def split: fetch_result.splits
        dest: gather_loop_within_caps [OF c])
qed

lemma gather_for_query_seen_mono:
  "gather_for_query n w st q s = Some s' \<Longrightarrow> seen_ids s \<subseteq> seen_ids s'"
  by (auto simp: gather_for_query_def Let_def split: fetch_result.splits
      dest!: gather_loop_seen_mono)

lemma run_queries_within_caps:
  "within_caps st s \<Longrightarrow> run_queries n w st qs s = Some s' \<Longrightarrow> within_caps st s'"
proof (induction qs arbitrary: s)
  case Nil
  then show ?case by simp
next
  case (Cons q qs)
  from Cons.prems(2) obtain s1 where g: "gather_for_query n w st q s = Some s1"
    by (auto split: option.splits)
  note c = gather_for_query_within_caps [OF Cons.prems(1) g]
  show ?case
  proof (cases "raised s1 = None")
    case True
    with g Cons.prems(2) have "run_queries n w st qs s1 = Some s'" by simp
    from Cons.IH [OF c this] show ?thesis .
  next
    case False
    with g Cons.prems(2) c show ?thesis by auto
  qed
qed

lemma run_queries_seen_mono:
  "run_queries n w st qs s = Some s' \<Longrightarrow> seen_ids s \<subseteq> seen_ids s'"
proof (induction qs arbitrary: s)
  case Nil
  then show ?case by simp
next
  case (Cons q qs)
  from Cons.prems obtain s1 where g: "gather_for_query n w st q s = Some s1"
    by (auto split: option.splits)
  note c = gather_for_query_seen_mono [OF g]
  show ?case
  proof (cases "raised s1 = None")
    case True
    with g Cons.prems have "run_queries n w st qs s1 = Some s'" by simp
    from Cons.IH [OF this] c show ?thesis by blast
  next
    case False
    with g Cons.prems c show ?thesis by auto
  qed
qed

section \<open>Micro-breaks\<close>




section \<open>The author filter\<close>

lemma ok_author_nonzero:
  "followers_count u = Some n \<Longrightarrow> n \<noteq> 0 \<Longrightarrow> ok_author u lo hi \<longleftrightarrow> lo \<le> n \<and> n \<le> hi"
  by (simp add: ok_author_def or_int_def)

lemma ok_author_fallback:
  "followers_count u = None \<or> followers_count u = Some 0 \<Longrightarrow>
   ok_author u lo hi \<longleftrightarrow> (case followers u of None \<Rightarrow> True | Some n \<Rightarrow> lo \<le> n \<and> n \<le> hi)"
  by (auto simp: ok_author_def or_int_def split: option.splits)

text \<open>
  C2. The claim wants an author whose followers count is the integer 0 to pass only when
  0 lies within the bounds. In \<^verbatim>\<open>ok_author\<close> a count of 0 is falsy, so
  \<^verbatim>\<open>followers_count or followers\<close> moves on to the second attribute; when that one is
  missing the conversion raises and the author passes. With the bounds 100 to 1000 an
  author with no follower passes the check, the tweet clears the filters and is marked as
  seen.
\<close>

theorem ok_author_zero_followers:
  "ok_author zero_user 100 1000
   \<and> fst (filter_checks demo_world demo_settings
             ((demo_tweet ''9'')\<lparr>tweet_user := Some zero_user\<rparr>) start) = Some zero_user
   \<and> ''9'' \<in> seen_ids (process_tweet demo_world demo_settings
                          ((demo_tweet ''9'')\<lparr>tweet_user := Some zero_user\<rparr>) start)"
  by code_simp


section \<open>The seen set\<close>

lemma process_tweet_seen_skip:
  "tweet_id t = Some tid \<Longrightarrow> tid \<in> seen_ids s \<Longrightarrow> process_tweet w st t s = s"
  by (simp add: process_tweet_def)

lemma process_tweet_accepted:
  assumes "tweet_id t = Some tid" "tid \<noteq> []" "tid \<notin> seen_ids s"
    and "filter_checks w st t s = (Some u, s1)"
  shows "process_tweet w st t s = dispatch w st tid u (s1\<lparr>seen_ids := insert tid (seen_ids s1)\<rparr>)"
  using assms by (simp add: process_tweet_def)

lemma process_tweet_rejected:
  assumes "tweet_id t = Some tid" "tid \<noteq> []" "tid \<notin> seen_ids s"
    and "filter_checks w st t s = (None, s1)"
  shows "process_tweet w st t s = s1" "seen_ids (process_tweet w st t s) = seen_ids s"
  using assms filter_checks_fields(1) [OF assms(4)] by (simp_all add: process_tweet_def)

text \<open>
  C3. A candidate with an identifier that is not yet seen and that clears the checks on
  text, keywords, language, age and author has its identifier put into the seen set
  first, and the actions are dispatched from that state: the identifier is in the seen
  set afterwards whatever the environment answers. A candidate whose identifier is in
  the seen set leaves the whole state as it is (no clock read, no call, no event), and
  since the seen set only grows, this stays so after any further page and after all the
  queries of the run.
\<close>

theorem seen_before_action:
  "(tweet_id t = Some tid \<and> tid \<noteq> [] \<and> tid \<notin> seen_ids s
      \<and> filter_checks w st t s = (Some u, s1)
    \<longrightarrow> process_tweet w st t s = dispatch w st tid u (s1\<lparr>seen_ids := insert tid (seen_ids s1)\<rparr>)
        \<and> tid \<in> seen_ids (process_tweet w st t s))
   \<and> (tweet_id t' = Some tid' \<and> tid' \<in> seen_ids s'
    \<longrightarrow> process_tweet w st t' s' = s'
        \<and> process_tweet w st t' (process_page w st ts s') = process_page w st ts s'
        \<and> (run_queries n w st qs s' = Some s'' \<longrightarrow> process_tweet w st t' s'' = s''))"
proof (intro conjI impI)
  assume a: "tweet_id t = Some tid \<and> tid \<noteq> [] \<and> tid \<notin> seen_ids s
      \<and> filter_checks w st t s = (Some u, s1)"
  then show e: "process_tweet w st t s = dispatch w st tid u (s1\<lparr>seen_ids := insert tid (seen_ids s1)\<rparr>)"
    by (simp add: process_tweet_accepted)
  show "tid \<in> seen_ids (process_tweet w st t s)" unfolding e by simp
next
  assume b: "tweet_id t' = Some tid' \<and> tid' \<in> seen_ids s'"
  then show "process_tweet w st t' s' = s'" by (simp add: process_tweet_seen_skip)
  from b process_page_seen_mono [of s' w st ts] have "tid' \<in> seen_ids (process_page w st ts s')"
    by blast
  with b show "process_tweet w st t' (process_page w st ts s') = process_page w st ts s'"
    by (simp add: process_tweet_seen_skip)
  assume "run_queries n w st qs s' = Some s''"
  from run_queries_seen_mono [OF this] b have "tid' \<in> seen_ids s''" by blast
  with b show "process_tweet w st t' s'' = s''" by (simp add: process_tweet_seen_skip)
qed


theorem seen_before_action_witness:
  "tweet_id (demo_tweet ''1'') = Some ''1'' \<and> ''1'' \<noteq> [] \<and> ''1'' \<notin> seen_ids start
   \<and> filter_checks failing_world demo_settings (demo_tweet ''1'') start = (Some demo_user, start)
   \<and> ''1'' \<in> seen_ids seen_one
   \<and> run_queries 3 failing_world demo_settings [''isabelle''] seen_one
        = Some (emit [EvSearch ''isabelle''] (step_tick seen_one))
   \<and> process_tweet failing_world demo_settings (demo_tweet ''1'') seen_one = seen_one
   \<and> process_tweet failing_world demo_settings (demo_tweet ''1'')
        (emit [EvSearch ''isabelle''] (step_tick seen_one))
        = emit [EvSearch ''isabelle''] (step_tick seen_one)"
proof -
  have a: "tweet_id (demo_tweet ''1'') = Some ''1'' \<and> ''1'' \<noteq> [] \<and> ''1'' \<notin> seen_ids start"
    by code_simp
  have b1: "fst (filter_checks failing_world demo_settings (demo_tweet ''1'') start) = Some demo_user"
    by code_simp
  have b2: "snd (filter_checks failing_world demo_settings (demo_tweet ''1'') start) = start"
    by (simp add: filter_checks_def demo_tweet_def ok_age_def Let_def split: prod.splits)
  from b1 b2 have b: "filter_checks failing_world demo_settings (demo_tweet ''1'') start = (Some demo_user, start)"
    by (simp add: prod_eq_iff)
  from seen_before_action [of "demo_tweet ''1''" "''1''" start failing_world demo_settings demo_user start]
    a b
  have c: "''1'' \<in> seen_ids seen_one" by (simp add: seen_one_def)
  have d: "run_queries 3 failing_world demo_settings [''isabelle''] seen_one
        = Some (emit [EvSearch ''isabelle''] (step_tick seen_one))"
    by (simp add: gather_for_query_def failing_world_def demo_world_def empty_page_def
        gather_loop_empty)
  have t: "tweet_id (demo_tweet ''1'') = Some ''1''" by code_simp
  from seen_before_action [of _ _ _ failing_world demo_settings _ _ "demo_tweet ''1''" "''1''"
      seen_one "[]" 3 "[''isabelle'']" "emit [EvSearch ''isabelle''] (step_tick seen_one)"] t c d
  have e: "process_tweet failing_world demo_settings (demo_tweet ''1'') seen_one = seen_one
   \<and> process_tweet failing_world demo_settings (demo_tweet ''1'')
        (emit [EvSearch ''isabelle''] (step_tick seen_one))
        = emit [EvSearch ''isabelle''] (step_tick seen_one)"
    by blast
  from a b c d e show ?thesis by blast
qed


section \<open>Quotas\<close>

lemma like_step_exhausted: "left \<le> 0 \<Longrightarrow> like_step w st tid left s = s"
  by (simp add: like_step_def)

lemma follow_step_exhausted: "left \<le> 0 \<Longrightarrow> follow_step w st u left s = s"
  by (simp add: follow_step_def)

text \<open>
  C4. For an accepted candidate the like count grows by one exactly when liking is
  enabled, the remaining like quota (cap minus count) is positive and the like is
  confirmed (no dry run, an entry point exists, the call returns), and it is unchanged
  otherwise; the same holds for the follow count. With no like quota left the like step
  does nothing and the candidate still goes through the follow step; with no follow quota
  left only the like step runs. So counts that are within their caps stay within them
  after every candidate and every page, and a run that starts its counts at zero under
  non-negative caps ends with both counts within the caps.
\<close>

theorem quota_discipline:
  "like_count (dispatch w st tid u s) =
     like_count s + (if do_like st \<and> 0 < like_per_day st - like_count s \<and> like_confirmed w st tid s
                     then 1 else 0)
   \<and> follow_count (dispatch w st tid u s) =
     follow_count s +
       (if raised (like_step w st tid (like_per_day st - like_count s) s) = None \<and> do_follow st
           \<and> 0 < follow_per_day st - follow_count s
           \<and> follow_confirmed w st u (like_step w st tid (like_per_day st - like_count s) s)
        then 1 else 0)
   \<and> (like_per_day st - like_count sl \<le> 0 \<and> raised sl = None \<longrightarrow>
        like_step w st tid (like_per_day st - like_count sl) sl = sl
        \<and> dispatch w st tid u sl =
            (let s2 = follow_step w st u (follow_per_day st - follow_count sl) sl
             in if raised s2 \<noteq> None then s2 else micro_break st s2))
   \<and> (follow_per_day st - follow_count sf \<le> 0 \<and> raised sf = None \<longrightarrow>
        dispatch w st tid u sf =
            (let s1 = like_step w st tid (like_per_day st - like_count sf) sf
             in if raised s1 \<noteq> None then s1 else micro_break st s1))
   \<and> (within_caps st si \<longrightarrow>
        within_caps st (process_tweet w st t si) \<and> within_caps st (process_page w st ts si))
   \<and> (0 \<le> like_per_day st \<and> 0 \<le> follow_per_day st
        \<and> run_queries n w st qs (s0\<lparr>like_count := 0, follow_count := 0\<rparr>) = Some s'
      \<longrightarrow> like_count s' \<le> like_per_day st \<and> follow_count s' \<le> follow_per_day st)"
proof (intro conjI impI)
  show "like_count (dispatch w st tid u s) =
     like_count s + (if do_like st \<and> 0 < like_per_day st - like_count s \<and> like_confirmed w st tid s
                     then 1 else 0)"
    by (rule dispatch_like_count)
  show "follow_count (dispatch w st tid u s) =
     follow_count s +
       (if raised (like_step w st tid (like_per_day st - like_count s) s) = None \<and> do_follow st
           \<and> 0 < follow_per_day st - follow_count s
           \<and> follow_confirmed w st u (like_step w st tid (like_per_day st - like_count s) s)
        then 1 else 0)"
    by (rule dispatch_follow_count)
next
  assume a: "like_per_day st - like_count sl \<le> 0 \<and> raised sl = None"
  then show l: "like_step w st tid (like_per_day st - like_count sl) sl = sl"
    by (simp add: like_step_exhausted)
  from a show "dispatch w st tid u sl =
            (let s2 = follow_step w st u (follow_per_day st - follow_count sl) sl
             in if raised s2 \<noteq> None then s2 else micro_break st s2)"
    by (simp add: dispatch_def Let_def l)
next
  assume "follow_per_day st - follow_count sf \<le> 0 \<and> raised sf = None"
  then show "dispatch w st tid u sf =
            (let s1 = like_step w st tid (like_per_day st - like_count sf) sf
             in if raised s1 \<noteq> None then s1 else micro_break st s1)"
    by (simp add: dispatch_def Let_def follow_step_exhausted)
next
  assume "within_caps st si"
  then show "within_caps st (process_tweet w st t si)" "within_caps st (process_page w st ts si)"
    by (simp_all add: process_tweet_within_caps process_page_within_caps)
next
  assume a: "0 \<le> like_per_day st \<and> 0 \<le> follow_per_day st
        \<and> run_queries n w st qs (s0\<lparr>like_count := 0, follow_count := 0\<rparr>) = Some s'"
  then have i: "within_caps st (s0\<lparr>like_count := 0, follow_count := 0\<rparr>)"
    by (simp add: within_caps_def)
  from a have rq: "run_queries n w st qs (s0\<lparr>like_count := 0, follow_count := 0\<rparr>) = Some s'"
    by simp
  from run_queries_within_caps [OF i rq]
  show "like_count s' \<le> like_per_day st" "follow_count s' \<le> follow_per_day st"
    by (simp_all add: within_caps_def)
qed


theorem quota_discipline_witness:
  "like_per_day demo_settings - like_count two_likes \<le> 0 \<and> raised two_likes = None
   \<and> follow_per_day demo_settings - follow_count follows_done \<le> 0 \<and> raised follows_done = None
   \<and> within_caps demo_settings two_likes
   \<and> 0 \<le> like_per_day demo_settings \<and> 0 \<le> follow_per_day demo_settings
   \<and> run_queries 3 three_world demo_settings [''isabelle''] (start\<lparr>like_count := 0, follow_count := 0\<rparr>)
       = Some (emit [EvSleep 2 5, EvNext 1] (step_tick (process_page three_world demo_settings
                 (tweets three_page) (emit [EvSearch ''isabelle''] (step_tick start)))))
   \<and> trace (dispatch three_world demo_settings ''3'' demo_user two_likes)
       = [EvFollow ''u1'', EvSleep 60 150, EvSleep 120 300]
   \<and> like_count (dispatch three_world demo_settings ''3'' demo_user two_likes) = 2
   \<and> trace (dispatch three_world demo_settings ''3'' demo_user follows_done)
       = [EvLike ''3'', EvSleep 20 40]
   \<and> follow_count (dispatch three_world demo_settings ''3'' demo_user follows_done) = 333
   \<and> within_caps demo_settings (process_tweet three_world demo_settings (demo_tweet ''3'') two_likes)
   \<and> like_count (emit [EvSleep 2 5, EvNext 1] (step_tick (process_page three_world demo_settings
                 (tweets three_page) (emit [EvSearch ''isabelle''] (step_tick start))))) \<le> 2"
proof -
  let ?fin = "emit [EvSleep 2 5, EvNext 1] (step_tick (process_page three_world demo_settings
                 (tweets three_page) (emit [EvSearch ''isabelle''] (step_tick start))))"
  have h1: "like_per_day demo_settings - like_count two_likes \<le> 0 \<and> raised two_likes = None"
    by code_simp
  have h2: "follow_per_day demo_settings - follow_count follows_done \<le> 0 \<and> raised follows_done = None"
    by code_simp
  have h3: "within_caps demo_settings two_likes" by code_simp
  have h4: "0 \<le> like_per_day demo_settings \<and> 0 \<le> follow_per_day demo_settings" by code_simp
  have z: "start\<lparr>like_count := 0, follow_count := 0\<rparr> = start" by (simp add: start_def)
  have r: "raised (process_page three_world demo_settings (tweets three_page)
                    (emit [EvSearch ''isabelle''] (step_tick start))) = None"
    by code_simp
  have ne: "tweets three_page \<noteq> []" by (simp add: three_page_def)
  have h5: "run_queries 3 three_world demo_settings [''isabelle''] (start\<lparr>like_count := 0, follow_count := 0\<rparr>)
       = Some ?fin"
    unfolding z using r ne
    by (simp add: gather_for_query_def three_world_def demo_world_def numeral_3_eq_3
        gather_loop_Suc gather_turn_def Let_def gather_loop_empty empty_page_def three_page_def)
  note q = quota_discipline [where w = three_world and st = demo_settings and tid = "''3''"
      and u = demo_user and s = two_likes and sl = two_likes and sf = follows_done
      and si = two_likes and t = "demo_tweet ''3''" and ts = "[]" and n = 3
      and qs = "[''isabelle'']" and ?s0.0 = start and s' = ?fin]
  note q1 = q [THEN conjunct1]
  note q2 = q [THEN conjunct2, THEN conjunct1]
  note q3 = q [THEN conjunct2, THEN conjunct2, THEN conjunct1, THEN mp, OF h1, THEN conjunct2]
  note q4 = q [THEN conjunct2, THEN conjunct2, THEN conjunct2, THEN conjunct1, THEN mp, OF h2]
  note q5 = q [THEN conjunct2, THEN conjunct2, THEN conjunct2, THEN conjunct2, THEN conjunct1,
      THEN mp, OF h3, THEN conjunct1]
  from h4 h5 have h45: "0 \<le> like_per_day demo_settings \<and> 0 \<le> follow_per_day demo_settings
      \<and> run_queries 3 three_world demo_settings [''isabelle'']
            (start\<lparr>like_count := 0, follow_count := 0\<rparr>) = Some ?fin"
    by blast
  note q6 = q [THEN conjunct2, THEN conjunct2, THEN conjunct2, THEN conjunct2, THEN conjunct2,
      THEN mp, OF h45, THEN conjunct1]
  have "trace (dispatch three_world demo_settings ''3'' demo_user two_likes)
        = trace (let s2 = follow_step three_world demo_settings demo_user
                      (follow_per_day demo_settings - follow_count two_likes) two_likes
             in if raised s2 \<noteq> None then s2 else micro_break demo_settings s2)"
    by (rule arg_cong [OF q3])
  also have "\<dots> = [EvFollow ''u1'', EvSleep 60 150, EvSleep 120 300]" by code_simp
  finally have c1: "trace (dispatch three_world demo_settings ''3'' demo_user two_likes)
       = [EvFollow ''u1'', EvSleep 60 150, EvSleep 120 300]" .
  note q1
  also have "like_count two_likes +
      (if do_like demo_settings \<and> 0 < like_per_day demo_settings - like_count two_likes
          \<and> like_confirmed three_world demo_settings ''3'' two_likes then 1 else 0) = 2"
    by code_simp
  finally have c2: "like_count (dispatch three_world demo_settings ''3'' demo_user two_likes) = 2" .
  have "trace (dispatch three_world demo_settings ''3'' demo_user follows_done)
        = trace (let s1 = like_step three_world demo_settings ''3''
                      (like_per_day demo_settings - like_count follows_done) follows_done
             in if raised s1 \<noteq> None then s1 else micro_break demo_settings s1)"
    by (rule arg_cong [OF q4])
  also have "\<dots> = [EvLike ''3'', EvSleep 20 40]" by code_simp
  finally have c3: "trace (dispatch three_world demo_settings ''3'' demo_user follows_done)
       = [EvLike ''3'', EvSleep 20 40]" .
  have "follow_count (dispatch three_world demo_settings ''3'' demo_user follows_done)
        = follow_count (let s1 = like_step three_world demo_settings ''3''
                      (like_per_day demo_settings - like_count follows_done) follows_done
             in if raised s1 \<noteq> None then s1 else micro_break demo_settings s1)"
    by (rule arg_cong [OF q4])
  also have "\<dots> = 333" by code_simp
  finally have c4: "follow_count (dispatch three_world demo_settings ''3'' demo_user follows_done) = 333" .
  note c5 = q5
  from q6 have c6: "like_count ?fin \<le> 2" by (simp add: demo_settings_def)
  from h1 h2 h3 h4 h5 c1 c2 c3 c4 c5 c6 show ?thesis by blast
qed


section \<open>Pagination\<close>

lemma emit_emit: "emit b (emit a s) = emit (a @ b) s"
  by (simp add: emit_def)

lemma gather_turn_rate:
  assumes "raised (process_page w st (tweets results) s) = None"
    and "next_page w (tick (process_page w st (tweets results) s)) (cursor results) = RateLimited"
  shows "gather_turn w st results s =
           (Some results, emit [EvSleep 2 5, EvNext (cursor results), EvSleep 60 120]
                            (step_tick (process_page w st (tweets results) s)))"
  using assms by (simp add: gather_turn_def Let_def emit_emit)

lemma gather_turn_failed:
  assumes "raised (process_page w st (tweets results) s) = None"
    and "next_page w (tick (process_page w st (tweets results) s)) (cursor results) = FetchFailed e"
  shows "gather_turn w st results s =
           (None, emit [EvSleep 2 5, EvNext (cursor results)]
                    (step_tick (process_page w st (tweets results) s)))"
  using assms by (simp add: gather_turn_def Let_def)

text \<open>
  The call of \<^verbatim>\<open>next()\<close>. Take a turn of the pagination loop on a page that has tweets
  and whose processing raised nothing. If the call is rate-limited, the turn sleeps 2 to 5
  seconds, calls \<^verbatim>\<open>next()\<close>, sleeps a random 60 to 120 seconds and hands the same page
  handle (the same cursor) to the next turn: the loop goes on with it and is not left. If
  the call fails in any other way, the loop returns at once, no exception is left
  pending, and the loop over the queries goes on with the remaining queries from that
  state.
\<close>

lemma next_page_errors:
  assumes ne: "tweets results \<noteq> []"
    and s1: "s1 = process_page w st (tweets results) s"
    and ok: "raised s1 = None"
  shows "(next_page w (tick s1) (cursor results) = RateLimited \<longrightarrow>
            gather_turn w st results s =
              (Some results, emit [EvSleep 2 5, EvNext (cursor results), EvSleep 60 120] (step_tick s1))
          \<and> gather_loop (Suc m) w st results s =
              gather_loop m w st results
                (emit [EvSleep 2 5, EvNext (cursor results), EvSleep 60 120] (step_tick s1)))
       \<and> (next_page w (tick s1) (cursor results) = FetchFailed e \<longrightarrow>
            gather_loop (Suc m) w st results s =
              Some (emit [EvSleep 2 5, EvNext (cursor results)] (step_tick s1))
          \<and> (search_tweet w (tick s0) q = Fetched results \<and> s = emit [EvSearch q] (step_tick s0) \<longrightarrow>
               run_queries (Suc m) w st (q # qs) s0 =
                 run_queries (Suc m) w st qs
                   (emit [EvSleep 2 5, EvNext (cursor results)] (step_tick s1))))"
proof (intro conjI impI)
  assume r: "next_page w (tick s1) (cursor results) = RateLimited"
  from gather_turn_rate [of w st results s] ok r s1
  show t: "gather_turn w st results s =
              (Some results, emit [EvSleep 2 5, EvNext (cursor results), EvSleep 60 120] (step_tick s1))"
    by simp
  from ne show "gather_loop (Suc m) w st results s =
              gather_loop m w st results
                (emit [EvSleep 2 5, EvNext (cursor results), EvSleep 60 120] (step_tick s1))"
    by (simp add: gather_loop_Suc t)
next
  assume f: "next_page w (tick s1) (cursor results) = FetchFailed e"
  from gather_turn_failed [of w st results s e] ok f s1
  have t: "gather_turn w st results s =
             (None, emit [EvSleep 2 5, EvNext (cursor results)] (step_tick s1))"
    by simp
  from ne show l: "gather_loop (Suc m) w st results s =
              Some (emit [EvSleep 2 5, EvNext (cursor results)] (step_tick s1))"
    by (simp add: gather_loop_Suc t)
  assume q: "search_tweet w (tick s0) q = Fetched results \<and> s = emit [EvSearch q] (step_tick s0)"
  then have "gather_for_query (Suc m) w st q s0 =
               Some (emit [EvSleep 2 5, EvNext (cursor results)] (step_tick s1))"
    using l by (simp add: gather_for_query_def Let_def)
  with ok show "run_queries (Suc m) w st (q # qs) s0 =
                 run_queries (Suc m) w st qs
                   (emit [EvSleep 2 5, EvNext (cursor results)] (step_tick s1))"
    by simp
qed

lemma next_page_errors_example:
  "tweets three_page \<noteq> []
   \<and> raised (process_page rate_world demo_settings (tweets three_page)
               (emit [EvSearch ''isabelle''] (step_tick start))) = None
   \<and> next_page rate_world
        (tick (process_page rate_world demo_settings (tweets three_page)
                 (emit [EvSearch ''isabelle''] (step_tick start)))) (cursor three_page) = RateLimited
   \<and> map_option trace (gather_loop 3 rate_world demo_settings three_page
                          (emit [EvSearch ''isabelle''] (step_tick start))) =
       Some [EvSearch ''isabelle'', EvLike ''1'', EvSleep 20 40, EvFollow ''u1'', EvSleep 60 150,
             EvLike ''2'', EvSleep 20 40, EvFollow ''u1'', EvSleep 60 150,
             EvFollow ''u1'', EvSleep 60 150,
             EvSleep 2 5, EvNext 1, EvSleep 60 120, EvSleep 2 5, EvNext 1]
   \<and> raised (process_page broken_world demo_settings (tweets three_page)
               (emit [EvSearch ''isabelle''] (step_tick start))) = None
   \<and> next_page broken_world
        (tick (process_page broken_world demo_settings (tweets three_page)
                 (emit [EvSearch ''isabelle''] (step_tick start)))) (cursor three_page)
        = FetchFailed ''boom''
   \<and> search_tweet broken_world (tick start) ''isabelle'' = Fetched three_page
   \<and> map_option trace (run_queries 3 broken_world demo_settings [''isabelle'', ''hol''] start) =
       Some [EvSearch ''isabelle'', EvLike ''1'', EvSleep 20 40, EvFollow ''u1'', EvSleep 60 150,
             EvLike ''2'', EvSleep 20 40, EvFollow ''u1'', EvSleep 60 150,
             EvFollow ''u1'', EvSleep 60 150, EvSleep 2 5, EvNext 1,
             EvSearch ''hol'', EvSleep 2 5, EvNext 1]"
proof -
  let ?s = "emit [EvSearch ''isabelle''] (step_tick start)"
  let ?pr = "process_page rate_world demo_settings (tweets three_page) ?s"
  let ?pb = "process_page broken_world demo_settings (tweets three_page) ?s"
  have ne: "tweets three_page \<noteq> []" by (simp add: three_page_def)
  have r1: "raised ?pr = None" by code_simp
  have r2: "next_page rate_world (tick ?pr) (cursor three_page) = RateLimited" by code_simp
  have b1: "raised ?pb = None" by code_simp
  have b2: "next_page broken_world (tick ?pb) (cursor three_page) = FetchFailed ''boom''"
    by code_simp
  have b3: "search_tweet broken_world (tick start) ''isabelle'' = Fetched three_page"
    by (simp add: broken_world_def three_world_def)
  have c3: "cursor three_page = 1" by (simp add: three_page_def)
  note pr = next_page_errors [OF ne refl r1, THEN conjunct1, THEN mp, OF r2, THEN conjunct2,
      of 2]
  note pb = next_page_errors [OF ne refl b1, THEN conjunct2, THEN mp, OF b2, THEN conjunct2,
      THEN mp, OF conjI, OF b3 refl, of 2 "[''hol'']"]
  have "map_option trace (gather_loop 3 rate_world demo_settings three_page ?s) =
        map_option trace (gather_loop 2 rate_world demo_settings three_page
          (emit [EvSleep 2 5, EvNext (cursor three_page), EvSleep 60 120] (step_tick ?pr)))"
    using pr by (simp add: numeral_3_eq_3 numeral_2_eq_2)
  also have "\<dots> = Some [EvSearch ''isabelle'', EvLike ''1'', EvSleep 20 40, EvFollow ''u1'', EvSleep 60 150,
             EvLike ''2'', EvSleep 20 40, EvFollow ''u1'', EvSleep 60 150,
             EvFollow ''u1'', EvSleep 60 150,
             EvSleep 2 5, EvNext 1, EvSleep 60 120, EvSleep 2 5, EvNext 1]"
    by code_simp
  finally have cr: "map_option trace (gather_loop 3 rate_world demo_settings three_page ?s) =
       Some [EvSearch ''isabelle'', EvLike ''1'', EvSleep 20 40, EvFollow ''u1'', EvSleep 60 150,
             EvLike ''2'', EvSleep 20 40, EvFollow ''u1'', EvSleep 60 150,
             EvFollow ''u1'', EvSleep 60 150,
             EvSleep 2 5, EvNext 1, EvSleep 60 120, EvSleep 2 5, EvNext 1]" .
  have "map_option trace (run_queries 3 broken_world demo_settings [''isabelle'', ''hol''] start) =
        map_option trace (run_queries 3 broken_world demo_settings [''hol'']
          (emit [EvSleep 2 5, EvNext (cursor three_page)] (step_tick ?pb)))"
    using pb by (simp add: numeral_3_eq_3 numeral_2_eq_2)
  also have "\<dots> = Some [EvSearch ''isabelle'', EvLike ''1'', EvSleep 20 40, EvFollow ''u1'', EvSleep 60 150,
             EvLike ''2'', EvSleep 20 40, EvFollow ''u1'', EvSleep 60 150,
             EvFollow ''u1'', EvSleep 60 150, EvSleep 2 5, EvNext 1,
             EvSearch ''hol'', EvSleep 2 5, EvNext 1]"
    by code_simp
  finally have cb: "map_option trace (run_queries 3 broken_world demo_settings [''isabelle'', ''hol''] start) =
       Some [EvSearch ''isabelle'', EvLike ''1'', EvSleep 20 40, EvFollow ''u1'', EvSleep 60 150,
             EvLike ''2'', EvSleep 20 40, EvFollow ''u1'', EvSleep 60 150,
             EvFollow ''u1'', EvSleep 60 150, EvSleep 2 5, EvNext 1,
             EvSearch ''hol'', EvSleep 2 5, EvNext 1]" .
  from ne r1 r2 cr b1 b2 b3 cb show ?thesis by blast
qed


text \<open>
  C7. The claim wants a rate-limit signal from a fetch to be followed by a backoff of 60
  to 120 seconds and a retry of the same fetch. The call of \<^verbatim>\<open>next()\<close> does that (the
  two statements above), but the first fetch of a query does not: a rate-limit signal
  from \<^verbatim>\<open>search_tweet\<close> is caught with every other exception and
  \<^verbatim>\<open>gather_for_query\<close> returns at once. In an environment whose first search is
  rate-limited, the first query ends after its search, with no sleep and no second
  search for it, and the run goes on with the next query.
\<close>

theorem search_rate_limit_not_retried:
  "search_tweet limited_world (tick start) ''isabelle'' = RateLimited
   \<and> map_option trace (gather_for_query 3 limited_world demo_settings ''isabelle'' start)
       = Some [EvSearch ''isabelle'']
   \<and> map_option trace (run_queries 3 limited_world demo_settings [''isabelle'', ''hol''] start)
       = Some [EvSearch ''isabelle'', EvSearch ''hol'',
               EvLike ''1'', EvSleep 20 40, EvFollow ''u1'', EvSleep 60 150,
               EvLike ''2'', EvSleep 20 40, EvFollow ''u1'', EvSleep 60 150,
               EvFollow ''u1'', EvSleep 60 150, EvSleep 2 5, EvNext 1]"
  by code_simp

section \<open>The seen set on disk\<close>

lemma load_after_save:
  assumes "write_seen w (tick s) = Written" and "set (list_of_set w (seen_ids s)) = seen_ids s"
  shows "load_seen (files (save_seen w st s)) (seen_path st) = seen_ids s"
  using assms by (simp add: save_seen_def load_seen_def step_tick_def)

text \<open>
  C8. When the write at the end of a pass succeeds, loading the file gives back the seen
  set of that moment, in whatever order the set was enumerated into the JSON array; two
  arrays with the same elements in different orders load as the same set. Loading a
  file that is missing or cannot be parsed gives the empty set, and the pass goes on
  from there with nothing raised. A pass over a non-empty query list that returns
  without exception and writes with success leaves a file from which the next load gives
  the final seen set.
\<close>

theorem seen_roundtrip:
  "(write_seen w (tick s) = Written \<and> set (list_of_set w (seen_ids s)) = seen_ids s
      \<longrightarrow> load_seen (files (save_seen w st s)) (seen_path st) = seen_ids s)
   \<and> (set xs = set ys
      \<longrightarrow> load_seen (fs(p \<mapsto> JsonStrings xs)) p = load_seen (fs(p \<mapsto> JsonStrings ys)) p)
   \<and> (fs' p' = None \<or> fs' p' = Some Unparsable \<longrightarrow> load_seen fs' p' = {})
   \<and> (cookies_ok w \<and> queries w \<noteq> []
       \<and> (files s0 (seen_path st) = None \<or> files s0 (seen_path st) = Some Unparsable)
      \<longrightarrow> run_pass n w st s0 =
           (case run_queries n w st (queries w)
                   (s0\<lparr>seen_ids := {}, like_count := 0, follow_count := 0\<rparr>) of
              None \<Rightarrow> None
            | Some s2 \<Rightarrow> if raised s2 \<noteq> None then Some s2 else Some (save_seen w st s2)))
   \<and> (cookies_ok w \<and> queries w \<noteq> []
       \<and> run_queries n w st (queries w)
            (s0\<lparr>seen_ids := load_seen (files s0) (seen_path st),
                like_count := 0, follow_count := 0\<rparr>) = Some s2
       \<and> raised s2 = None \<and> write_seen w (tick s2) = Written
       \<and> set (list_of_set w (seen_ids s2)) = seen_ids s2
      \<longrightarrow> run_pass n w st s0 = Some (save_seen w st s2)
          \<and> load_seen (files (save_seen w st s2)) (seen_path st) = seen_ids s2)"
proof (intro conjI impI)
  assume "write_seen w (tick s) = Written \<and> set (list_of_set w (seen_ids s)) = seen_ids s"
  then show "load_seen (files (save_seen w st s)) (seen_path st) = seen_ids s"
    by (simp add: load_after_save)
next
  assume "set xs = set ys"
  then show "load_seen (fs(p \<mapsto> JsonStrings xs)) p = load_seen (fs(p \<mapsto> JsonStrings ys)) p"
    by (simp add: load_seen_def)
next
  assume "fs' p' = None \<or> fs' p' = Some Unparsable"
  then show "load_seen fs' p' = {}" by (auto simp: load_seen_def)
next
  assume a: "cookies_ok w \<and> queries w \<noteq> []
       \<and> (files s0 (seen_path st) = None \<or> files s0 (seen_path st) = Some Unparsable)"
  then have "load_seen (files s0) (seen_path st) = {}" by (auto simp: load_seen_def)
  with a show "run_pass n w st s0 =
           (case run_queries n w st (queries w)
                   (s0\<lparr>seen_ids := {}, like_count := 0, follow_count := 0\<rparr>) of
              None \<Rightarrow> None
            | Some s2 \<Rightarrow> if raised s2 \<noteq> None then Some s2 else Some (save_seen w st s2))"
    by (simp add: run_pass_def Let_def)
next
  assume a: "cookies_ok w \<and> queries w \<noteq> []
       \<and> run_queries n w st (queries w)
            (s0\<lparr>seen_ids := load_seen (files s0) (seen_path st),
                like_count := 0, follow_count := 0\<rparr>) = Some s2
       \<and> raised s2 = None \<and> write_seen w (tick s2) = Written
       \<and> set (list_of_set w (seen_ids s2)) = seen_ids s2"
  then show "run_pass n w st s0 = Some (save_seen w st s2)"
    by (simp add: run_pass_def Let_def)
  from a show "load_seen (files (save_seen w st s2)) (seen_path st) = seen_ids s2"
    by (simp add: load_after_save)
qed

lemma three_world_run:
  "run_queries 3 three_world demo_settings [''isabelle''] start = Some three_done"
proof -
  have r: "raised (process_page three_world demo_settings (tweets three_page)
                    (emit [EvSearch ''isabelle''] (step_tick start))) = None"
    by code_simp
  have ne: "tweets three_page \<noteq> []" by (simp add: three_page_def)
  from r ne show ?thesis
    by (simp add: gather_for_query_def three_world_def demo_world_def numeral_3_eq_3
        gather_loop_Suc gather_turn_def Let_def gather_loop_empty empty_page_def three_page_def
        three_done_def)
qed

theorem seen_roundtrip_witness:
  "write_seen three_world (tick three_done) = Written
   \<and> set (list_of_set three_world (seen_ids three_done)) = seen_ids three_done
   \<and> set [''a'', ''b'', ''c''] = set [''c'', ''a'', ''b'']
   \<and> files start (seen_path demo_settings) = None
   \<and> cookies_ok three_world \<and> queries three_world \<noteq> []
   \<and> run_queries 3 three_world demo_settings (queries three_world)
        (start\<lparr>seen_ids := load_seen (files start) (seen_path demo_settings),
               like_count := 0, follow_count := 0\<rparr>) = Some three_done
   \<and> raised three_done = None
   \<and> seen_ids three_done = {''1'', ''2'', ''3''}
   \<and> files (save_seen three_world demo_settings three_done) ''seen.json''
       = Some (JsonStrings [''3'', ''1'', ''2''])
   \<and> run_pass 3 three_world demo_settings start
       = Some (save_seen three_world demo_settings three_done)
   \<and> load_seen (files (save_seen three_world demo_settings three_done)) (seen_path demo_settings)
       = {''1'', ''2'', ''3''}
   \<and> load_seen ((files start)(''old.json'' \<mapsto> JsonStrings [''a'', ''b'', ''c''])) ''old.json''
       = load_seen ((files start)(''old.json'' \<mapsto> JsonStrings [''c'', ''a'', ''b''])) ''old.json''
   \<and> load_seen (files start) (seen_path demo_settings) = {}"
proof -
  have h1: "write_seen three_world (tick three_done) = Written"
    by (simp add: three_world_def demo_world_def)
  have sd: "seen_ids three_done = {''1'', ''2'', ''3''}" by code_simp
  have h2: "set (list_of_set three_world (seen_ids three_done)) = seen_ids three_done"
    unfolding sd by (auto simp: three_world_def demo_world_def)
  have h3: "set [''a'', ''b'', ''c''] = set [''c'', ''a'', ''b'']" by auto
  have h4: "files start (seen_path demo_settings) = None" by (simp add: start_def)
  have h5: "cookies_ok three_world \<and> queries three_world \<noteq> []"
    by (simp add: three_world_def demo_world_def)
  have z: "start\<lparr>seen_ids := load_seen (files start) (seen_path demo_settings),
               like_count := 0, follow_count := 0\<rparr> = start"
    by (simp add: start_def load_seen_def)
  have qs: "queries three_world = [''isabelle'']" by (simp add: three_world_def demo_world_def)
  have h6: "run_queries 3 three_world demo_settings (queries three_world)
        (start\<lparr>seen_ids := load_seen (files start) (seen_path demo_settings),
               like_count := 0, follow_count := 0\<rparr>) = Some three_done"
    unfolding z qs by (rule three_world_run)
  have h7: "raised three_done = None" by code_simp
  have f: "files (save_seen three_world demo_settings three_done) ''seen.json''
       = Some (JsonStrings [''3'', ''1'', ''2''])"
    by (simp add: save_seen_def h1 sd three_world_def demo_world_def demo_settings_def)
  note q = seen_roundtrip [where w = three_world and s = three_done and st = demo_settings
      and xs = "[''a'', ''b'', ''c'']" and ys = "[''c'', ''a'', ''b'']" and fs = "files start"
      and p = "''old.json''" and fs' = "files start" and p' = "seen_path demo_settings"
      and ?s0.0 = start and n = 3 and ?s2.0 = three_done]
  from h5 h6 h7 h1 h2 have h: "cookies_ok three_world \<and> queries three_world \<noteq> []
       \<and> run_queries 3 three_world demo_settings (queries three_world)
            (start\<lparr>seen_ids := load_seen (files start) (seen_path demo_settings),
                like_count := 0, follow_count := 0\<rparr>) = Some three_done
       \<and> raised three_done = None \<and> write_seen three_world (tick three_done) = Written
       \<and> set (list_of_set three_world (seen_ids three_done)) = seen_ids three_done"
    by blast
  note q5 = q [THEN conjunct2, THEN conjunct2, THEN conjunct2, THEN conjunct2, THEN mp, OF h]
  note q2 = q [THEN conjunct2, THEN conjunct1, THEN mp, OF h3]
  from h4 have h4': "files start (seen_path demo_settings) = None
       \<or> files start (seen_path demo_settings) = Some Unparsable" by blast
  note q3 = q [THEN conjunct2, THEN conjunct2, THEN conjunct1, THEN mp, OF h4']
  from q5 sd have c1: "run_pass 3 three_world demo_settings start
       = Some (save_seen three_world demo_settings three_done)"
    and c2: "load_seen (files (save_seen three_world demo_settings three_done)) (seen_path demo_settings)
       = {''1'', ''2'', ''3''}"
    by simp_all
  from h1 h2 h3 h4 h5 h6 h7 sd f c1 c2 q2 q3 show ?thesis by blast
qed

section \<open>The session gate in a run\<close>

lemma run_once_gated:
  "sessions_enabled st \<Longrightarrow>
   \<not> within_blocks (local_time w (tick s)) (session_blocks st) (night_off st) \<Longrightarrow>
   run_once n w st s = Some (emit [EvSleepFixed 900] (step_tick s))"
  by (simp add: run_once_def Let_def)

text \<open>
  C9. When \<open>sessions_enabled\<close> is false, \<^verbatim>\<open>run_once\<close> is the pass itself, at every time
  of day and whatever the session windows and the night-off window are: the answer of
  the gate plays no part.
\<close>

theorem sessions_disabled_bypass:
  assumes "\<not> sessions_enabled st"
  shows "run_once n w st s = run_pass n w st (step_tick s)"
  using assms by (simp add: run_once_def Let_def)


theorem sessions_disabled_bypass_witness:
  "\<not> sessions_enabled demo_settings
   \<and> \<not> within_blocks (local_time three_world (tick start)) (session_blocks demo_settings)
          (night_off demo_settings)
   \<and> run_once 3 three_world demo_settings start = run_pass 3 three_world demo_settings (step_tick start)
   \<and> map_option trace (run_once 3 three_world demo_settings start) =
       Some [EvSearch ''isabelle'', EvLike ''1'', EvSleep 20 40, EvFollow ''u1'', EvSleep 60 150,
             EvLike ''2'', EvSleep 20 40, EvFollow ''u1'', EvSleep 60 150,
             EvFollow ''u1'', EvSleep 60 150, EvSleep 2 5, EvNext 1]
   \<and> map_option trace (run_once 3 three_world gated_settings start) = Some [EvSleepFixed 900]"
proof -
  have h: "\<not> sessions_enabled demo_settings" by (simp add: demo_settings_def)
  have g: "\<not> within_blocks (local_time three_world (tick start)) (session_blocks demo_settings)
          (night_off demo_settings)"
    by code_simp
  note q = sessions_disabled_bypass [OF h, of 3 three_world start]
  have "map_option trace (run_once 3 three_world demo_settings start)
        = map_option trace (run_pass 3 three_world demo_settings (step_tick start))"
    by (rule arg_cong [OF q])
  also have "\<dots> = Some [EvSearch ''isabelle'', EvLike ''1'', EvSleep 20 40, EvFollow ''u1'', EvSleep 60 150,
             EvLike ''2'', EvSleep 20 40, EvFollow ''u1'', EvSleep 60 150,
             EvFollow ''u1'', EvSleep 60 150, EvSleep 2 5, EvNext 1]"
    by code_simp
  finally have c: "map_option trace (run_once 3 three_world demo_settings start) =
       Some [EvSearch ''isabelle'', EvLike ''1'', EvSleep 20 40, EvFollow ''u1'', EvSleep 60 150,
             EvLike ''2'', EvSleep 20 40, EvFollow ''u1'', EvSleep 60 150,
             EvFollow ''u1'', EvSleep 60 150, EvSleep 2 5, EvNext 1]" .
  have d: "map_option trace (run_once 3 three_world gated_settings start) = Some [EvSleepFixed 900]"
    by code_simp
  from h g q c d show ?thesis by blast
qed


section \<open>A rate limit between two pages\<close>

lemma process_page_append:
  "raised (process_page w st pre s) = None \<Longrightarrow>
   process_page w st (pre @ ys) s = process_page w st ys (process_page w st pre s)"
proof (induction pre arbitrary: s)
  case Nil
  show ?case by simp
next
  case (Cons x xs)
  show ?case
  proof (cases "raised (process_tweet w st x s) = None")
    case True
    with Cons.prems have "raised (process_page w st xs (process_tweet w st x s)) = None"
      by (simp add: Let_def)
    from Cons.IH [OF this] True show ?thesis by (simp add: Let_def)
  next
    case False
    with Cons.prems show ?thesis by (simp add: Let_def)
  qed
qed

lemma process_page_Cons_seen:
  "seen_ids (process_tweet w st t s) \<subseteq> seen_ids (process_page w st (t # ts) s)"
  using process_page_seen_mono [of "process_tweet w st t s" w st ts] by (simp add: Let_def)

text \<open>
  C10. When the call of \<^verbatim>\<open>next()\<close> after a page is rate-limited, the turn after the
  backoff runs on the same page: all its tweets go through the body of the loop again,
  and the events of that second iteration come before the second call of \<^verbatim>\<open>next()\<close>
  on the same cursor. A tweet of the page that was accepted in the first iteration is in
  the seen set when its turn comes again and leaves the state as it is. A tweet whose
  identifier is not in the seen set has the filter checks run on it again, and a
  rejection leaves the seen set as it was, so it is checked at every iteration.
\<close>

theorem rate_limit_reiterates_page:
  assumes ne: "tweets results \<noteq> []"
    and s1: "s1 = process_page w st (tweets results) s"
    and ok: "raised s1 = None"
    and rl: "next_page w (tick s1) (cursor results) = RateLimited"
    and s2: "s2 = emit [EvSleep 2 5, EvNext (cursor results), EvSleep 60 120] (step_tick s1)"
    and p2: "p2 = process_page w st (tweets results) s2"
  shows "gather_loop (Suc (Suc m)) w st results s =
           (case gather_turn w st results s2 of
              (None, s3) \<Rightarrow> Some s3
            | (Some r, s3) \<Rightarrow> gather_loop m w st r s3)
       \<and> (raised p2 = None \<longrightarrow>
            trace (snd (gather_turn w st results s2)) =
              trace p2 @ [EvSleep 2 5, EvNext (cursor results)] @
                (case next_page w (tick p2) (cursor results) of
                   RateLimited \<Rightarrow> [EvSleep 60 120] | Fetched r \<Rightarrow> [] | FetchFailed e \<Rightarrow> []))
       \<and> (tweets results = pre @ t # post \<and> raised (process_page w st pre s) = None
            \<and> tweet_id t = Some tid \<and> tid \<noteq> [] \<and> tid \<notin> seen_ids (process_page w st pre s)
            \<and> filter_checks w st t (process_page w st pre s) = (Some u, sa)
          \<longrightarrow> process_tweet w st t (process_page w st pre s2) = process_page w st pre s2)
       \<and> (tweet_id t' = Some tid' \<and> tid' \<noteq> [] \<and> tid' \<notin> seen_ids sb
          \<longrightarrow> process_tweet w st t' sb =
                (case filter_checks w st t' sb of
                   (None, sc) \<Rightarrow> sc
                 | (Some u', sc) \<Rightarrow> dispatch w st tid' u' (sc\<lparr>seen_ids := insert tid' (seen_ids sc)\<rparr>))
              \<and> (fst (filter_checks w st t' sb) = None
                   \<longrightarrow> seen_ids (process_tweet w st t' sb) = seen_ids sb))"
proof (intro conjI impI)
  from gather_turn_rate [of w st results s] ok rl s1 s2
  have t: "gather_turn w st results s = (Some results, s2)" by simp
  from ne have "gather_loop (Suc (Suc m)) w st results s = gather_loop (Suc m) w st results s2"
    by (simp add: gather_loop_Suc t)
  also from ne have "\<dots> = (case gather_turn w st results s2 of
              (None, s3) \<Rightarrow> Some s3
            | (Some r, s3) \<Rightarrow> gather_loop m w st r s3)"
    by (rule gather_loop_Suc)
  finally show "gather_loop (Suc (Suc m)) w st results s =
           (case gather_turn w st results s2 of
              (None, s3) \<Rightarrow> Some s3
            | (Some r, s3) \<Rightarrow> gather_loop m w st r s3)" .
next
  assume "raised p2 = None"
  with p2 show "trace (snd (gather_turn w st results s2)) =
              trace p2 @ [EvSleep 2 5, EvNext (cursor results)] @
                (case next_page w (tick p2) (cursor results) of
                   RateLimited \<Rightarrow> [EvSleep 60 120] | Fetched r \<Rightarrow> [] | FetchFailed e \<Rightarrow> [])"
    by (simp add: gather_turn_def Let_def split: fetch_result.splits)
next
  assume a: "tweets results = pre @ t # post \<and> raised (process_page w st pre s) = None
            \<and> tweet_id t = Some tid \<and> tid \<noteq> [] \<and> tid \<notin> seen_ids (process_page w st pre s)
            \<and> filter_checks w st t (process_page w st pre s) = (Some u, sa)"
  let ?sp = "process_page w st pre s"
  from a have "process_tweet w st t ?sp = dispatch w st tid u (sa\<lparr>seen_ids := insert tid (seen_ids sa)\<rparr>)"
    by (simp add: process_tweet_accepted)
  then have i: "tid \<in> seen_ids (process_tweet w st t ?sp)" by simp
  from a s1 have "s1 = process_page w st (t # post) ?sp" by (simp add: process_page_append)
  with process_page_Cons_seen [of w st t ?sp post] i have "tid \<in> seen_ids s1" by blast
  with s2 have "tid \<in> seen_ids s2" by simp
  with process_page_seen_mono [of s2 w st pre] have "tid \<in> seen_ids (process_page w st pre s2)"
    by blast
  with a show "process_tweet w st t (process_page w st pre s2) = process_page w st pre s2"
    by (simp add: process_tweet_seen_skip)
next
  assume b: "tweet_id t' = Some tid' \<and> tid' \<noteq> [] \<and> tid' \<notin> seen_ids sb"
  then show "process_tweet w st t' sb =
                (case filter_checks w st t' sb of
                   (None, sc) \<Rightarrow> sc
                 | (Some u', sc) \<Rightarrow> dispatch w st tid' u' (sc\<lparr>seen_ids := insert tid' (seen_ids sc)\<rparr>))"
    by (simp add: process_tweet_def)
  assume c: "fst (filter_checks w st t' sb) = None"
  obtain r sc where f: "filter_checks w st t' sb = (r, sc)" by (cases "filter_checks w st t' sb")
  with c have "filter_checks w st t' sb = (None, sc)" by simp
  then have fc: "filter_checks w st t' sb = (None, sc)" .
  from b have b1: "tweet_id t' = Some tid'" and b2: "tid' \<noteq> []" and b3: "tid' \<notin> seen_ids sb"
    by simp_all
  from process_tweet_rejected(2) [OF b1 b2 b3 fc]
  show "seen_ids (process_tweet w st t' sb) = seen_ids sb" .
qed

theorem rate_limit_reiterates_page_witness:
  "tweets mixed_page \<noteq> []
   \<and> raised (process_page mixed_world demo_settings (tweets mixed_page) start) = None
   \<and> next_page mixed_world (tick (process_page mixed_world demo_settings (tweets mixed_page) start))
        (cursor mixed_page) = RateLimited
   \<and> raised (process_page mixed_world demo_settings (tweets mixed_page) mixed_backoff) = None
   \<and> tweets mixed_page = [] @ demo_tweet ''1'' # [old_tweet]
   \<and> raised (process_page mixed_world demo_settings [] start) = None
   \<and> tweet_id (demo_tweet ''1'') = Some ''1'' \<and> ''1'' \<noteq> []
   \<and> ''1'' \<notin> seen_ids (process_page mixed_world demo_settings [] start)
   \<and> filter_checks mixed_world demo_settings (demo_tweet ''1'')
        (process_page mixed_world demo_settings [] start) = (Some demo_user, start)
   \<and> tweet_id old_tweet = Some ''2'' \<and> ''2'' \<noteq> [] \<and> ''2'' \<notin> seen_ids mixed_backoff
   \<and> fst (filter_checks mixed_world demo_settings old_tweet mixed_backoff) = None
   \<and> map_option trace (gather_loop 2 mixed_world demo_settings mixed_page start) =
       Some [EvLike ''1'', EvSleep 20 40, EvFollow ''u1'', EvSleep 60 150,
             EvSleep 2 5, EvNext 7, EvSleep 60 120, EvSleep 2 5, EvNext 7]
   \<and> trace (snd (gather_turn mixed_world demo_settings mixed_page mixed_backoff)) =
       [EvLike ''1'', EvSleep 20 40, EvFollow ''u1'', EvSleep 60 150,
        EvSleep 2 5, EvNext 7, EvSleep 60 120, EvSleep 2 5, EvNext 7]
   \<and> process_tweet mixed_world demo_settings (demo_tweet ''1'') mixed_backoff = mixed_backoff
   \<and> tick mixed_backoff = 4
   \<and> tick (process_tweet mixed_world demo_settings old_tweet mixed_backoff) = 5
   \<and> seen_ids (process_tweet mixed_world demo_settings old_tweet mixed_backoff)
       = seen_ids mixed_backoff"
proof -
  let ?p1 = "process_page mixed_world demo_settings (tweets mixed_page) start"
  let ?p2 = "process_page mixed_world demo_settings (tweets mixed_page) mixed_backoff"
  have h1: "tweets mixed_page \<noteq> []" by (simp add: mixed_page_def)
  have h2: "raised ?p1 = None" by code_simp
  have h3: "next_page mixed_world (tick ?p1) (cursor mixed_page) = RateLimited" by code_simp
  have h4: "raised ?p2 = None" by code_simp
  have h5: "tweets mixed_page = [] @ demo_tweet ''1'' # [old_tweet]" by (simp add: mixed_page_def)
  have h6: "raised (process_page mixed_world demo_settings [] start) = None" by (simp add: start_def)
  have h7: "tweet_id (demo_tweet ''1'') = Some ''1'' \<and> ''1'' \<noteq> []
      \<and> ''1'' \<notin> seen_ids (process_page mixed_world demo_settings [] start)"
    by (simp add: demo_tweet_def start_def)
  have f1: "fst (filter_checks mixed_world demo_settings (demo_tweet ''1'') start) = Some demo_user"
    by code_simp
  have f2: "snd (filter_checks mixed_world demo_settings (demo_tweet ''1'') start) = start"
    by (simp add: filter_checks_def demo_tweet_def ok_age_def Let_def split: prod.splits)
  from f1 f2 have h8: "filter_checks mixed_world demo_settings (demo_tweet ''1'')
        (process_page mixed_world demo_settings [] start) = (Some demo_user, start)"
    by (simp add: prod_eq_iff)
  have h9: "tweet_id old_tweet = Some ''2'' \<and> ''2'' \<noteq> [] \<and> ''2'' \<notin> seen_ids mixed_backoff"
    by code_simp
  have h10: "fst (filter_checks mixed_world demo_settings old_tweet mixed_backoff) = None"
    by code_simp
  note q = rate_limit_reiterates_page [OF h1 refl h2 h3 refl refl,
      where m = 0 and pre = "[]" and t = "demo_tweet ''1''" and post = "[old_tweet]"
        and tid = "''1''" and u = demo_user and sa = start
        and t' = old_tweet and tid' = "''2''" and sb = mixed_backoff,
      folded mixed_backoff_def]
  note q1 = q [THEN conjunct1]
  note q2 = q [THEN conjunct2, THEN conjunct1, THEN mp, OF h4]
  from h5 h6 h7 h8 have h58: "tweets mixed_page = [] @ demo_tweet ''1'' # [old_tweet]
      \<and> raised (process_page mixed_world demo_settings [] start) = None
      \<and> tweet_id (demo_tweet ''1'') = Some ''1'' \<and> ''1'' \<noteq> []
      \<and> ''1'' \<notin> seen_ids (process_page mixed_world demo_settings [] start)
      \<and> filter_checks mixed_world demo_settings (demo_tweet ''1'')
           (process_page mixed_world demo_settings [] start) = (Some demo_user, start)"
    by blast
  note q3 = q [THEN conjunct2, THEN conjunct2, THEN conjunct1, THEN mp, OF h58]
  note q4 = q [THEN conjunct2, THEN conjunct2, THEN conjunct2, THEN mp, OF h9]
  have "map_option trace (gather_loop 2 mixed_world demo_settings mixed_page start)
        = map_option trace (case gather_turn mixed_world demo_settings mixed_page mixed_backoff of
              (None, s3) \<Rightarrow> Some s3
            | (Some r, s3) \<Rightarrow> gather_loop 0 mixed_world demo_settings r s3)"
    using q1 by (simp add: numeral_2_eq_2)
  also have "\<dots> = Some [EvLike ''1'', EvSleep 20 40, EvFollow ''u1'', EvSleep 60 150,
             EvSleep 2 5, EvNext 7, EvSleep 60 120, EvSleep 2 5, EvNext 7]"
    by code_simp
  finally have c1: "map_option trace (gather_loop 2 mixed_world demo_settings mixed_page start) =
       Some [EvLike ''1'', EvSleep 20 40, EvFollow ''u1'', EvSleep 60 150,
             EvSleep 2 5, EvNext 7, EvSleep 60 120, EvSleep 2 5, EvNext 7]" .
  note q2
  also have "trace ?p2 @ [EvSleep 2 5, EvNext (cursor mixed_page)] @
                (case next_page mixed_world (tick ?p2) (cursor mixed_page) of
                   RateLimited \<Rightarrow> [EvSleep 60 120] | Fetched r \<Rightarrow> [] | FetchFailed e \<Rightarrow> [])
        = [EvLike ''1'', EvSleep 20 40, EvFollow ''u1'', EvSleep 60 150,
           EvSleep 2 5, EvNext 7, EvSleep 60 120, EvSleep 2 5, EvNext 7]"
    by code_simp
  finally have c2: "trace (snd (gather_turn mixed_world demo_settings mixed_page mixed_backoff)) =
       [EvLike ''1'', EvSleep 20 40, EvFollow ''u1'', EvSleep 60 150,
        EvSleep 2 5, EvNext 7, EvSleep 60 120, EvSleep 2 5, EvNext 7]" .
  from q3 have c3: "process_tweet mixed_world demo_settings (demo_tweet ''1'') mixed_backoff = mixed_backoff"
    by simp
  have c4: "tick mixed_backoff = 4" by code_simp
  have "tick (process_tweet mixed_world demo_settings old_tweet mixed_backoff)
        = tick (case filter_checks mixed_world demo_settings old_tweet mixed_backoff of
                   (None, sc) \<Rightarrow> sc
                 | (Some u', sc) \<Rightarrow> dispatch mixed_world demo_settings ''2'' u'
                                      (sc\<lparr>seen_ids := insert ''2'' (seen_ids sc)\<rparr>))"
    by (rule arg_cong [OF q4 [THEN conjunct1]])
  also have "\<dots> = 5" by code_simp
  finally have c5: "tick (process_tweet mixed_world demo_settings old_tweet mixed_backoff) = 5" .
  note c6 = q4 [THEN conjunct2, THEN mp, OF h10]
  from h1 h2 h3 h4 h5 h6 h7 h8 h9 h10 c1 c2 c3 c4 c5 c6 show ?thesis by blast
qed

end
